theory Spec2Isabelle
  imports Complex_Main "HOL-Library.AList" "HOL-Library.Log_Nat"
begin

section \<open>JavaScript values used by the components\<close>

text \<open>
  A JavaScript \<^verbatim>\<open>number\<close> is modelled twice. The first model is an exact real or
  \<^verbatim>\<open>NaN\<close>: it has the comparisons, the truthiness and the \<^verbatim>\<open>NaN\<close> propagation of
  the language, and no rounding error, no infinities and no sign of zero. It
  serves where a claim is about thresholds, table lookups and control flow.
  The second model, \<open>double\<close> below, rounds every operation as IEEE 754
  binary64 does; it serves where a claim is about the value that is returned.
  For the price estimate the two are related by lemma \<open>estimate_double_nearest\<close>:
  on integer employee counts up to \<open>10^9\<close> the estimate in doubles is the double
  nearest to the estimate in exact numbers.
\<close>

datatype number = Num real | NaN

fun number_times :: "number \<Rightarrow> number \<Rightarrow> number" where
  "number_times (Num a) (Num b) = Num (a * b)"
| "number_times _ _ = NaN"

text \<open>
  Division. \<^verbatim>\<open>0 / 0\<close> is \<^verbatim>\<open>NaN\<close>. A non-zero dividend over zero is an infinity
  in JavaScript, which \<open>number\<close> does not represent; the modelled code divides
  by the literal 100 and by an array length whose dividend is 0 when the length
  is 0, so that case does not arise.
\<close>

fun number_divide :: "number \<Rightarrow> number \<Rightarrow> number" where
  "number_divide (Num a) (Num b) = (if b = 0 then NaN else Num (a / b))"
| "number_divide _ _ = NaN"

text \<open>\<^verbatim>\<open>Math.round\<close>: the nearest integer, ties towards positive infinity.\<close>

fun Math_round :: "number \<Rightarrow> number" where
  "Math_round (Num x) = Num (of_int \<lfloor>x + 1 / 2\<rfloor>)"
| "Math_round NaN = NaN"

text \<open>Comparisons: every comparison with \<^verbatim>\<open>NaN\<close> is false.\<close>

fun number_ge :: "number \<Rightarrow> number \<Rightarrow> bool" where
  "number_ge (Num a) (Num b) = (b \<le> a)"
| "number_ge _ _ = False"

fun number_less :: "number \<Rightarrow> number \<Rightarrow> bool" where
  "number_less (Num a) (Num b) = (a < b)"
| "number_less _ _ = False"

text \<open>
  What a property read on an object literal of numbers can yield: a number (an
  own property), an object or function (a property inherited from
  \<^verbatim>\<open>Object.prototype\<close>), or \<^verbatim>\<open>undefined\<close>.
\<close>

datatype js_value = JsNumber number | JsObject | JsUndefined

fun truthy :: "js_value \<Rightarrow> bool" where
  "truthy (JsNumber (Num x)) = (x \<noteq> 0)"
| "truthy (JsNumber NaN) = False"
| "truthy JsObject = True"
| "truthy JsUndefined = False"

text \<open>The operator \<^verbatim>\<open>a || b\<close>.\<close>

definition js_or :: "js_value \<Rightarrow> js_value \<Rightarrow> js_value" where
  "js_or a b = (if truthy a then a else b)"

text \<open>
  \<^verbatim>\<open>ToNumber\<close>, as the operator \<^verbatim>\<open>*=\<close> applies it to its right operand. A function
  and \<^verbatim>\<open>Object.prototype\<close> convert through their string form, which is not
  numeric; \<^verbatim>\<open>undefined\<close> converts to \<^verbatim>\<open>NaN\<close> as well.
\<close>

fun to_number :: "js_value \<Rightarrow> number" where
  "to_number (JsNumber n) = n"
| "to_number JsObject = NaN"
| "to_number JsUndefined = NaN"

text \<open>
  The property names every object literal inherits from \<^verbatim>\<open>Object.prototype\<close>
  (ECMAScript, including Annex B). All of them hold functions, except
  \<^verbatim>\<open>__proto__\<close>, which reads as \<^verbatim>\<open>Object.prototype\<close> itself.
\<close>

definition Object_prototype_keys :: "string list" where
  "Object_prototype_keys =
     [''constructor'', ''hasOwnProperty'', ''isPrototypeOf'', ''propertyIsEnumerable'',
      ''toLocaleString'', ''toString'', ''valueOf'', ''__proto__'',
      ''__defineGetter__'', ''__defineSetter__'', ''__lookupGetter__'', ''__lookupSetter__'']"

text \<open>
  \<^verbatim>\<open>obj[key]\<close> on an object literal whose own properties are the pairs of
  \<open>obj\<close>: own properties first, then the prototype chain.
\<close>

definition get_property :: "(string \<times> real) list \<Rightarrow> string \<Rightarrow> js_value" where
  "get_property obj key =
     (case map_of obj key of
        Some x \<Rightarrow> JsNumber (Num x)
      | None \<Rightarrow> if key \<in> set Object_prototype_keys then JsObject else JsUndefined)"

section \<open>Double-precision numbers\<close>

text \<open>
  The numbers of the running program are IEEE 754 binary64 values. A \<open>double\<close>
  is a finite value, an infinity (\<open>Infinite True\<close> is positive) or \<^verbatim>\<open>NaN\<close>.
  The sign of zero is not represented. Every arithmetic operation computes the
  exact real result and rounds it with \<open>rd\<close>: to the nearest value with a
  53-bit significand, ties to the even significand, with the exponent range of
  the format (subnormal spacing \<open>2^-1074\<close>, overflow to infinity from
  \<open>2^1024\<close>). A decimal literal denotes \<open>rd\<close> of its decimal value.
\<close>

datatype double = Finite real | Infinite bool | DNaN

definition round_even :: "real \<Rightarrow> int" where
  "round_even t =
     (let f = \<lfloor>t\<rfloor>; r = t - of_int f
      in if r < 1 / 2 then f else if 1 / 2 < r then f + 1 else if even f then f else f + 1)"

text \<open>The binary exponent of a positive real: \<open>2^q \<le> y < 2^(q+1)\<close>.\<close>

definition ilog2 :: "real \<Rightarrow> int" where
  "ilog2 y = (if 1 \<le> y then bitlen \<lfloor>y\<rfloor> - 1 else - bitlen (\<lceil>1 / y\<rceil> - 1))"

definition rd :: "real \<Rightarrow> double" where
  "rd x =
     (if x = 0 then Finite 0
      else let e = max (ilog2 \<bar>x\<bar> - 52) (- 1074);
               r = of_int (round_even (x / 2 powi e)) * 2 powi e
           in if 2 ^ 1024 \<le> \<bar>r\<bar> then Infinite (0 < x) else Finite r)"

text \<open>The unit roundoff: the relative error of one rounding is at most this.\<close>

definition ulp_unit :: real where
  "ulp_unit = 2 powi (- 53)"

fun d_times :: "double \<Rightarrow> double \<Rightarrow> double" where
  "d_times (Finite a) (Finite b) = rd (a * b)"
| "d_times DNaN _ = DNaN"
| "d_times _ DNaN = DNaN"
| "d_times (Infinite s) (Finite b) = (if b = 0 then DNaN else Infinite (s = (0 < b)))"
| "d_times (Finite a) (Infinite s) = (if a = 0 then DNaN else Infinite (s = (0 < a)))"
| "d_times (Infinite s) (Infinite t) = Infinite (s = t)"

fun d_plus :: "double \<Rightarrow> double \<Rightarrow> double" where
  "d_plus (Finite a) (Finite b) = rd (a + b)"
| "d_plus DNaN _ = DNaN"
| "d_plus _ DNaN = DNaN"
| "d_plus (Infinite s) (Finite b) = Infinite s"
| "d_plus (Finite a) (Infinite s) = Infinite s"
| "d_plus (Infinite s) (Infinite t) = (if s = t then Infinite s else DNaN)"

fun d_uminus :: "double \<Rightarrow> double" where
  "d_uminus (Finite a) = Finite (- a)"
| "d_uminus (Infinite s) = Infinite (\<not> s)"
| "d_uminus DNaN = DNaN"

definition d_minus :: "double \<Rightarrow> double \<Rightarrow> double" where
  "d_minus a b = d_plus a (d_uminus b)"

text \<open>
  Division. A zero divisor is read as positive zero; the modelled code divides
  by the literal 100 and by an array length that a guard keeps positive.
\<close>

fun d_divide :: "double \<Rightarrow> double \<Rightarrow> double" where
  "d_divide (Finite a) (Finite b) =
     (if b = 0 then (if a = 0 then DNaN else Infinite (0 < a)) else rd (a / b))"
| "d_divide DNaN _ = DNaN"
| "d_divide _ DNaN = DNaN"
| "d_divide (Infinite s) (Finite b) = Infinite (s = (0 \<le> b))"
| "d_divide (Finite a) (Infinite s) = Finite 0"
| "d_divide (Infinite s) (Infinite t) = DNaN"

text \<open>
  \<^verbatim>\<open>Math.round\<close> on a double: the nearest integer, ties towards positive
  infinity. The result is exact: a double of magnitude \<open>2^52\<close> or more is an
  integer already.
\<close>

fun d_round :: "double \<Rightarrow> double" where
  "d_round (Finite x) = Finite (of_int \<lfloor>x + 1 / 2\<rfloor>)"
| "d_round (Infinite s) = Infinite s"
| "d_round DNaN = DNaN"

fun d_greater :: "double \<Rightarrow> double \<Rightarrow> bool" where
  "d_greater (Finite a) (Finite b) = (b < a)"
| "d_greater DNaN _ = False"
| "d_greater _ DNaN = False"
| "d_greater (Infinite s) (Finite b) = s"
| "d_greater (Finite a) (Infinite s) = (\<not> s)"
| "d_greater (Infinite s) (Infinite t) = (s \<and> \<not> t)"

fun is_finite :: "double \<Rightarrow> bool" where
  "is_finite (Finite x) = True"
| "is_finite (Infinite s) = False"
| "is_finite DNaN = False"

text \<open>The value of a finite double.\<close>

fun real_of_double :: "double \<Rightarrow> real" where
  "real_of_double (Finite x) = x"
| "real_of_double (Infinite s) = 0"
| "real_of_double DNaN = 0"

text \<open>A number written as a decimal, read as the double it denotes.\<close>

fun to_double :: "number \<Rightarrow> double" where
  "to_double (Num x) = rd x"
| "to_double NaN = DNaN"

section \<open>Data of the API service\<close>

datatype priority = LOW | STANDARD | VIP

text \<open>Interface \<^verbatim>\<open>Offer\<close>; its field \<^verbatim>\<open>id\<close> is \<open>offer_id\<close> here.\<close>

record Offer =
  offer_id :: nat
  company_id :: nat
  employees_count :: int
  region :: string
  premium_48h :: bool
  base_price :: double
  final_price :: double
  ai_score :: double
  ml_score :: double
  rule_score :: double
  priority_level :: priority
  created_at :: string

text \<open>An offer with a given score, for the examples below.\<close>

definition offer_scored :: "double \<Rightarrow> Offer" where
  "offer_scored s =
     \<lparr>offer_id = 1, company_id = 1, employees_count = 100, region = ''Inne'',
      premium_48h = False, base_price = Finite 10000, final_price = Finite 9000,
      ai_score = s, ml_score = Finite 0, rule_score = Finite 0, priority_level = STANDARD,
      created_at = []\<rparr>"

section \<open>CalculatorComponent: the local price estimate\<close>

text \<open>
  Strings are byte strings; the three Polish letters of the region names are
  written as their UTF-8 bytes.
\<close>

definition Slaskie :: string where
  "Slaskie = [CHR 0xC5, CHR 0x9A] @ ''l'' @ [CHR 0xC4, CHR 0x85] @ ''skie''"

definition Malopolskie :: string where
  "Malopolskie = ''Ma'' @ [CHR 0xC5, CHR 0x82] @ ''opolskie''"

text \<open>
  The value object of \<^verbatim>\<open>pricingForm\<close> that \<^verbatim>\<open>calculateLocalEstimate\<close> receives: the
  six controls of \<^verbatim>\<open>initForm\<close>, typed as in interface \<^verbatim>\<open>OfferCreate\<close>;
  \<^verbatim>\<open>company_id\<close> is \<^verbatim>\<open>null\<close> until a company is chosen. The employee count is an
  integer, as in the data model.
\<close>

record form_values =
  company_id :: "nat option"
  employees_count :: int
  region :: string
  premium_48h :: bool
  ml_feature_avg_order_value :: real
  ml_feature_offers_count :: int

text \<open>
  \<^verbatim>\<open>calculateLocalEstimate\<close>. Its locals \<^verbatim>\<open>basePrice\<close>, \<^verbatim>\<open>discountRate\<close> and
  \<^verbatim>\<open>regionMultipliers\<close> are definitions of their own; \<^verbatim>\<open>price\<close> is rebound step by
  step as the source reassigns it.
\<close>

definition basePrice :: "form_values \<Rightarrow> real" where
  "basePrice values = of_int (employees_count values) * 100"

definition discountRate :: "form_values \<Rightarrow> real" where
  "discountRate values =
     (if employees_count values > 200 then 15 / 100
      else if employees_count values > 50 then 10 / 100
      else if employees_count values > 10 then 5 / 100
      else 0)"

definition regionMultipliers :: "(string \<times> real) list" where
  "regionMultipliers =
     [(''Mazowieckie'', 12 / 10), (Slaskie, 11 / 10), (Malopolskie, 105 / 100), (''Inne'', 1)]"

definition calculateLocalEstimate :: "form_values \<Rightarrow> number" where
  "calculateLocalEstimate values =
     (let price = Num (basePrice values * (1 - discountRate values));
          price = number_times price
                    (to_number (js_or (get_property regionMultipliers (region values))
                                      (JsNumber (Num 1))));
          price = (if premium_48h values then number_times price (Num (120 / 100)) else price)
      in number_divide (Math_round (number_times price (Num 100))) (Num 100))"

text \<open>\<^verbatim>\<open>getScoreClass\<close>: the style class of a score.\<close>

definition getScoreClass :: "number \<Rightarrow> string" where
  "getScoreClass score =
     (if number_ge score (Num 70) then ''score-high''
      else if number_ge score (Num 40) then ''score-medium''
      else ''score-low'')"

text \<open>
  \<^verbatim>\<open>calculateLocalEstimate\<close> in double-precision arithmetic, on the three
  attributes it reads. The employee count is any double: the form has no
  integer validator, and \<^verbatim>\<open>setupPricePreview\<close> calls the method on every change
  of the form values, valid or not. \<open>price_before_rounding\<close> is the local
  \<^verbatim>\<open>price\<close> when the \<^verbatim>\<open>return\<close> statement is reached. The region lookup is the
  one above, its literal read as a double.
\<close>

definition price_before_rounding :: "double \<Rightarrow> string \<Rightarrow> bool \<Rightarrow> double" where
  "price_before_rounding count reg premium =
     (let basePrice = d_times count (Finite 100);
          discountRate =
            (if d_greater count (Finite 200) then rd (15 / 100)
             else if d_greater count (Finite 50) then rd (10 / 100)
             else if d_greater count (Finite 10) then rd (5 / 100)
             else Finite 0);
          price = d_times basePrice (d_minus (Finite 1) discountRate);
          price = d_times price
                    (to_double (to_number (js_or (get_property regionMultipliers reg)
                                                 (JsNumber (Num 1)))))
      in if premium then d_times price (rd (120 / 100)) else price)"

definition calculateLocalEstimate_double :: "double \<Rightarrow> string \<Rightarrow> bool \<Rightarrow> double" where
  "calculateLocalEstimate_double count reg premium =
     d_divide (d_round (d_times (price_before_rounding count reg premium) (Finite 100)))
              (Finite 100)"

section \<open>CalculatorComponent: submitting the form\<close>

text \<open>
  A form control holds a value and the flag \<^verbatim>\<open>touched\<close>. The group keeps its
  controls by key, in the order of \<^verbatim>\<open>Object.keys\<close>, and the validation status
  that Angular derives from the validators; \<^verbatim>\<open>invalid\<close> reads that status. The
  validators themselves belong to the framework and are not modelled: the
  status is part of the state.
\<close>

datatype control_value = CNull | CNumber real | CString string | CBool bool

record control =
  ctl_value :: control_value
  touched :: bool

datatype form_status = VALID | INVALID | PENDING | DISABLED

record form_group =
  controls :: "(string \<times> control) list"
  status :: form_status

definition invalid :: "form_group \<Rightarrow> bool" where
  "invalid form = (status form = INVALID)"

definition markAsTouched :: "control \<Rightarrow> control" where
  "markAsTouched ctl = ctl\<lparr>touched := True\<rparr>"

text \<open>\<^verbatim>\<open>form.get(key)\<close> for a key that is a plain control name.\<close>

definition get :: "form_group \<Rightarrow> string \<Rightarrow> control option" where
  "get form key = map_of (controls form) key"

text \<open>\<^verbatim>\<open>form.value\<close>: the object of the controls' values.\<close>

definition form_value :: "form_group \<Rightarrow> (string \<times> control_value) list" where
  "form_value form = map (\<lambda>(key, ctl). (key, ctl_value ctl)) (controls form)"

text \<open>
  The component state that \<^verbatim>\<open>calculate\<close> can reach. \<open>calculateSubject\<close> is the
  sequence of values passed to \<^verbatim>\<open>calculateSubject$.next\<close> so far; the pipeline
  of \<^verbatim>\<open>setupCalculateStream\<close>, which issues the API request, reacts to these
  emissions only.
\<close>

record calculator_component =
  pricingForm :: form_group
  result :: "Offer option"
  loading :: bool
  calculateSubject :: "(string \<times> control_value) list list"

text \<open>
  The loop \<^verbatim>\<open>Object.keys(controls).forEach(key => form.get(key)?.markAsTouched())\<close>:
  each step marks the control found under the key, if there is one.
\<close>

definition markAllAsTouched :: "form_group \<Rightarrow> form_group" where
  "markAllAsTouched form =
     form\<lparr>controls :=
       foldl (\<lambda>cs key. AList.map_entry key markAsTouched cs)
         (controls form) (map fst (controls form))\<rparr>"

text \<open>
  \<^verbatim>\<open>next\<close> on the subject: the value is emitted, and the \<^verbatim>\<open>tap\<close> at the head of
  the subscribed pipeline sets \<^verbatim>\<open>loading\<close> synchronously; the debounced rest runs
  later and is outside this step.
\<close>

definition calculateSubject_next ::
  "calculator_component \<Rightarrow> (string \<times> control_value) list \<Rightarrow> calculator_component" where
  "calculateSubject_next c v = c\<lparr>calculateSubject := calculateSubject c @ [v], loading := True\<rparr>"

definition calculate :: "calculator_component \<Rightarrow> calculator_component" where
  "calculate c =
     (if invalid (pricingForm c)
      then c\<lparr>pricingForm := markAllAsTouched (pricingForm c)\<rparr>
      else calculateSubject_next c (form_value (pricingForm c)))"

section \<open>CalculatorComponent: the state the estimate can reach\<close>

text \<open>
  \<^verbatim>\<open>calculateLocalEstimate\<close> is a method: it runs with the component as
  \<^verbatim>\<open>this\<close> and with the global objects of the page. It touches one of them: the
  lookup \<^verbatim>\<open>regionMultipliers[values.region]\<close> continues from the object literal
  into \<^verbatim>\<open>Object.prototype\<close>, a mutable global object. Here the properties of
  \<^verbatim>\<open>Object.prototype\<close> at the time of the call are an argument, and the
  component is passed through: the method returns its result and the
  component as it leaves it.
\<close>

type_synonym prototype = "string \<Rightarrow> js_value option"

text \<open>\<^verbatim>\<open>Object.prototype\<close> as the language defines it, with nothing added.\<close>

definition pristine_prototype :: prototype where
  "pristine_prototype key = (if key \<in> set Object_prototype_keys then Some JsObject else None)"

definition get_property_in :: "prototype \<Rightarrow> (string \<times> real) list \<Rightarrow> string \<Rightarrow> js_value" where
  "get_property_in proto obj key =
     (case map_of obj key of
        Some x \<Rightarrow> JsNumber (Num x)
      | None \<Rightarrow> (case proto key of Some v \<Rightarrow> v | None \<Rightarrow> JsUndefined))"

definition calculateLocalEstimate_in ::
  "prototype \<Rightarrow> calculator_component \<Rightarrow> form_values \<Rightarrow> number \<times> calculator_component" where
  "calculateLocalEstimate_in proto this values =
     (let price = Num (basePrice values * (1 - discountRate values));
          price = number_times price
                    (to_number (js_or (get_property_in proto regionMultipliers (region values))
                                      (JsNumber (Num 1))));
          price = (if premium_48h values then number_times price (Num (120 / 100)) else price)
      in (number_divide (Math_round (number_times price (Num 100))) (Num 100), this))"

section \<open>OffersListComponent\<close>

record offers_list_component =
  totalOffers :: nat
  avgAiScore :: double
  vipCount :: nat

text \<open>
  \<^verbatim>\<open>calculateStats\<close>. The \<^verbatim>\<open>reduce\<close> adds the scores from left to right in double
  arithmetic, starting from 0; \<^verbatim>\<open>offers.length\<close> is an integer below \<open>2^32\<close> and
  so a double.
\<close>

definition calculateStats :: "offers_list_component \<Rightarrow> Offer list \<Rightarrow> offers_list_component" where
  "calculateStats c offers =
     c\<lparr>totalOffers := length offers,
       avgAiScore :=
         (if length offers > 0
          then d_round
                 (d_divide (foldl (\<lambda>sum offer. d_plus sum (ai_score offer)) (Finite 0) offers)
                           (Finite (of_nat (length offers))))
          else Finite 0),
       vipCount := length (filter (\<lambda>offer. priority_level offer = VIP) offers)\<rparr>"

definition getScoreColor :: "number \<Rightarrow> string" where
  "getScoreColor score =
     (if number_ge score (Num 70) then ''#4caf50''
      else if number_ge score (Num 40) then ''#ff9800''
      else ''#f44336'')"

section \<open>AuthService: the stored user\<close>

text \<open>
  The values \<^verbatim>\<open>JSON.parse\<close> can return. A number is a finite double or, for a
  literal too large for the format, an infinity. An object lists its own
  properties, one entry for each key.
\<close>

datatype json =
    JNull
  | JBool bool
  | JNumber real
  | JInfinite bool
  | JString string
  | JArray "json list"
  | JObject "(string \<times> json) list"

text \<open>
  The string stored under the key \<^verbatim>\<open>currentUser\<close>, by what \<^verbatim>\<open>JSON.parse\<close> makes of
  it: the empty string (falsy, and not a JSON text), a non-empty string that is
  not a JSON text, or a JSON text, given by its value. \<open>None\<close> is the absent
  entry, for which \<^verbatim>\<open>getItem\<close> returns \<^verbatim>\<open>null\<close>.
\<close>

datatype item = EmptyString | Malformed | Json json

type_synonym local_storage = "item option"

datatype exn = SyntaxError | TypeError

definition getItem :: "local_storage \<Rightarrow> item option" where
  "getItem storage = storage"

definition clearStorage :: "local_storage \<Rightarrow> local_storage" where
  "clearStorage storage = None"

fun JSON_parse :: "item \<Rightarrow> exn + json" where
  "JSON_parse EmptyString = Inl SyntaxError"
| "JSON_parse Malformed = Inl SyntaxError"
| "JSON_parse (Json j) = Inr j"

text \<open>
  \<^verbatim>\<open>user.expiresAt\<close>: reading a property of \<^verbatim>\<open>null\<close> throws; an object yields its
  own property or \<^verbatim>\<open>undefined\<close> (\<open>None\<close>); a boolean, a number, a string and an
  array have no such property.
\<close>

fun get_expiresAt :: "json \<Rightarrow> exn + json option" where
  "get_expiresAt JNull = Inl TypeError"
| "get_expiresAt (JObject props) = Inr (map_of props ''expiresAt'')"
| "get_expiresAt _ = Inr None"

fun js_truthy :: "json \<Rightarrow> bool" where
  "js_truthy JNull = False"
| "js_truthy (JBool b) = b"
| "js_truthy (JNumber x) = (x \<noteq> 0)"
| "js_truthy (JInfinite s) = True"
| "js_truthy (JString s) = (s \<noteq> [])"
| "js_truthy (JArray xs) = True"
| "js_truthy (JObject props) = True"

text \<open>
  \<^verbatim>\<open>Date.now() > x\<close>, with the current time in milliseconds. A number is
  compared as it is, a boolean and \<^verbatim>\<open>null\<close> as 1, 0 and 0. A string, an array and
  an object are first converted by the runtime (\<^verbatim>\<open>ToPrimitive\<close>, \<^verbatim>\<open>ToNumber\<close>),
  which yields a verdict or throws; that conversion is the parameter
  \<open>coerce\<close>.
\<close>

type_synonym coercion = "int \<Rightarrow> json \<Rightarrow> exn + bool"

fun now_greater :: "coercion \<Rightarrow> int \<Rightarrow> json \<Rightarrow> exn + bool" where
  "now_greater coerce now (JNumber x) = Inr (x < of_int now)"
| "now_greater coerce now (JInfinite s) = Inr (\<not> s)"
| "now_greater coerce now (JBool b) = Inr ((if b then 1 else 0) < now)"
| "now_greater coerce now JNull = Inr (0 < now)"
| "now_greater coerce now x = coerce now x"

text \<open>The condition \<^verbatim>\<open>user.expiresAt && Date.now() > user.expiresAt\<close>.\<close>

definition is_expired :: "coercion \<Rightarrow> int \<Rightarrow> json \<Rightarrow> exn + bool" where
  "is_expired coerce now user =
     (case get_expiresAt user of
        Inl e \<Rightarrow> Inl e
      | Inr None \<Rightarrow> Inr False
      | Inr (Some x) \<Rightarrow> if js_truthy x then now_greater coerce now x else Inr False)"

text \<open>
  The body of the \<^verbatim>\<open>try\<close> block, with the current time \<^verbatim>\<open>Date.now()\<close> as an
  argument: the returned value and the storage afterwards, or the exception.
  The cast \<^verbatim>\<open>as User\<close> checks nothing: what is returned is the parsed value.
\<close>

definition getStoredUser_try ::
  "coercion \<Rightarrow> int \<Rightarrow> local_storage \<Rightarrow> exn + (json option \<times> local_storage)" where
  "getStoredUser_try coerce now storage =
     (case getItem storage of
        None \<Rightarrow> Inr (None, storage)
      | Some stored \<Rightarrow>
          if stored = EmptyString then Inr (None, storage)
          else (case JSON_parse stored of
                  Inl e \<Rightarrow> Inl e
                | Inr user \<Rightarrow>
                    (case is_expired coerce now user of
                       Inl e \<Rightarrow> Inl e
                     | Inr True \<Rightarrow> Inr (None, clearStorage storage)
                     | Inr False \<Rightarrow> Inr (Some user, storage))))"

text \<open>The \<^verbatim>\<open>catch\<close> block clears the storage and returns \<^verbatim>\<open>null\<close>.\<close>

definition getStoredUser ::
  "coercion \<Rightarrow> int \<Rightarrow> local_storage \<Rightarrow> json option \<times> local_storage" where
  "getStoredUser coerce now storage =
     (case getStoredUser_try coerce now storage of
        Inr r \<Rightarrow> r
      | Inl e \<Rightarrow> (None, clearStorage storage))"

text \<open>
  Interface \<^verbatim>\<open>User\<close>, and the JSON object that \<^verbatim>\<open>JSON.stringify\<close> writes for a
  user and \<^verbatim>\<open>JSON.parse\<close> reads back: optional fields that are \<^verbatim>\<open>undefined\<close> are
  left out.
\<close>

record User =
  token :: string
  email :: "string option"
  role :: string
  expiresAt :: "real option"

definition user_json :: "User \<Rightarrow> json" where
  "user_json u =
     JObject ([(''token'', JString (token u))]
              @ (case email u of None \<Rightarrow> [] | Some e \<Rightarrow> [(''email'', JString e)])
              @ [(''role'', JString (role u))]
              @ (case expiresAt u of None \<Rightarrow> [] | Some x \<Rightarrow> [(''expiresAt'', JNumber x)]))"

section \<open>The Price Calculator in the words of the specification\<close>

text \<open>
  Section 4.5: the base price is the employee count times a fixed unit rate; the
  volume discount is an ordered list of (threshold, rate) pairs evaluated
  highest threshold first; the region multiplier is a table with the fallback
  1.0 for an unknown region; the premium multiplier is a fixed surcharge; the
  VIP tier takes 5 percent off last; the result is rounded to two decimals at
  the very end.
\<close>

definition spec_unitRate :: real where
  "spec_unitRate = 100"

definition spec_volume_tiers :: "(int \<times> real) list" where
  "spec_volume_tiers = [(200, 15 / 100), (50, 10 / 100), (10, 5 / 100)]"

definition spec_volumeDiscountRate :: "int \<Rightarrow> real" where
  "spec_volumeDiscountRate n =
     (case find (\<lambda>(threshold, rate). n > threshold) spec_volume_tiers of
        Some (threshold, rate) \<Rightarrow> rate
      | None \<Rightarrow> 0)"

definition spec_region_table :: "(string \<times> real) list" where
  "spec_region_table =
     [(''Mazowieckie'', 12 / 10), (Slaskie, 11 / 10), (Malopolskie, 105 / 100), (''Inne'', 1)]"

definition spec_regionMultiplier :: "string \<Rightarrow> real" where
  "spec_regionMultiplier r = (case map_of spec_region_table r of Some m \<Rightarrow> m | None \<Rightarrow> 1)"

definition spec_premiumMultiplier :: "bool \<Rightarrow> real" where
  "spec_premiumMultiplier premium = (if premium then 12 / 10 else 1)"

definition spec_tierDiscountRate :: "priority \<Rightarrow> real" where
  "spec_tierDiscountRate tier = (case tier of VIP \<Rightarrow> 5 / 100 | STANDARD \<Rightarrow> 0 | LOW \<Rightarrow> 0)"

definition round2 :: "real \<Rightarrow> real" where
  "round2 x = of_int \<lfloor>x * 100 + 1 / 2\<rfloor> / 100"

definition spec_finalPrice :: "priority \<Rightarrow> form_values \<Rightarrow> real" where
  "spec_finalPrice tier values =
     round2 (of_int (employees_count values) * spec_unitRate
             * (1 - spec_volumeDiscountRate (employees_count values))
             * spec_regionMultiplier (region values)
             * spec_premiumMultiplier (premium_48h values)
             * (1 - spec_tierDiscountRate tier))"

text \<open>
  The effective price per employee of the monotonicity property: the estimate
  divided by the employee count.
\<close>

definition per_employee_price :: "form_values \<Rightarrow> number" where
  "per_employee_price values =
     number_divide (calculateLocalEstimate values) (Num (of_int (employees_count values)))"

text \<open>
  The tier partition of section 4.4, \<open>[0,40]\<close> LOW, \<open>(40,70]\<close> STANDARD,
  \<open>(70,100]\<close> VIP (the README's table 0-40, 41-70, 71-100), and the style
  class and colour that go with each tier in the two components.
\<close>

definition spec_priorityTier :: "real \<Rightarrow> priority" where
  "spec_priorityTier s = (if s \<le> 40 then LOW else if s \<le> 70 then STANDARD else VIP)"

definition spec_scoreClass :: "priority \<Rightarrow> string" where
  "spec_scoreClass tier =
     (case tier of LOW \<Rightarrow> ''score-low'' | STANDARD \<Rightarrow> ''score-medium'' | VIP \<Rightarrow> ''score-high'')"

definition spec_scoreColor :: "priority \<Rightarrow> string" where
  "spec_scoreColor tier =
     (case tier of LOW \<Rightarrow> ''#f44336'' | STANDARD \<Rightarrow> ''#ff9800'' | VIP \<Rightarrow> ''#4caf50'')"

text \<open>
  The mean of a list of values and the rounded mean, computed exactly: the
  mean to the nearest integer, ties upwards, as \<^verbatim>\<open>Math.round\<close> rounds.
\<close>

definition spec_mean :: "real list \<Rightarrow> real" where
  "spec_mean xs = sum_list xs / of_nat (length xs)"

definition spec_rounded_mean :: "real list \<Rightarrow> int" where
  "spec_rounded_mean xs = \<lfloor>spec_mean xs + 1 / 2\<rfloor>"

text \<open>The values of the \<^verbatim>\<open>ai_score\<close> fields of a list of offers.\<close>

definition score_values :: "Offer list \<Rightarrow> real list" where
  "score_values offers = map (\<lambda>offer. real_of_double (ai_score offer)) offers"

text \<open>
  A bound on the distance between the mean of \<open>n\<close> scores between 0 and 100 as
  the doubles compute it and their exact mean.
\<close>

definition mean_error_bound :: "nat \<Rightarrow> real" where
  "mean_error_bound n = 102 * (of_nat n + 1) * ulp_unit"

section \<open>The price estimate: auxiliary facts\<close>

lemmas estimate_defs =
  calculateLocalEstimate_def basePrice_def discountRate_def regionMultipliers_def
  get_property_def js_or_def Slaskie_def Malopolskie_def Object_prototype_keys_def

lemmas spec_price_defs =
  spec_finalPrice_def spec_unitRate_def spec_volumeDiscountRate_def spec_volume_tiers_def
  spec_regionMultiplier_def spec_region_table_def spec_premiumMultiplier_def
  spec_tierDiscountRate_def round2_def Slaskie_def Malopolskie_def

lemma region_names_not_inherited:
  "''Mazowieckie'' \<notin> set Object_prototype_keys" "Slaskie \<notin> set Object_prototype_keys"
  "Malopolskie \<notin> set Object_prototype_keys" "''Inne'' \<notin> set Object_prototype_keys"
  by (simp_all add: Object_prototype_keys_def Slaskie_def Malopolskie_def)

text \<open>
  The lookup \<^verbatim>\<open>regionMultipliers[region] || 1.0\<close> is the table with fallback 1.0
  on every string that names no inherited property, and not a number on the
  inherited names.
\<close>

lemma region_lookup:
  assumes "r \<notin> set Object_prototype_keys"
  shows "to_number (js_or (get_property regionMultipliers r) (JsNumber (Num 1)))
         = Num (spec_regionMultiplier r)"
  using assms
  by (simp add: get_property_def regionMultipliers_def spec_regionMultiplier_def
      spec_region_table_def js_or_def)

lemma region_lookup_inherited:
  assumes "r \<in> set Object_prototype_keys"
  shows "to_number (js_or (get_property regionMultipliers r) (JsNumber (Num 1))) = NaN"
proof -
  have "map_of regionMultipliers r = None"
    using assms region_names_not_inherited by (auto simp: regionMultipliers_def)
  then show ?thesis using assms by (simp add: get_property_def js_or_def)
qed

lemma discountRate_spec: "discountRate v = spec_volumeDiscountRate (employees_count v)"
  by (simp add: discountRate_def spec_volumeDiscountRate_def spec_volume_tiers_def)

lemma estimate_round2:
  assumes "region v \<notin> set Object_prototype_keys"
  shows "calculateLocalEstimate v =
     Num (round2 (basePrice v * (1 - discountRate v) * spec_regionMultiplier (region v)
                  * spec_premiumMultiplier (premium_48h v)))"
  by (simp add: calculateLocalEstimate_def region_lookup[OF assms] round2_def
      spec_premiumMultiplier_def Let_def)

lemma estimate_inherited:
  assumes "region v \<in> set Object_prototype_keys"
  shows "calculateLocalEstimate v = NaN"
  by (simp add: calculateLocalEstimate_def region_lookup_inherited[OF assms] Let_def)

lemma discountRate_cases: "discountRate v \<in> {0, 5 / 100, 10 / 100, 15 / 100}"
  by (simp add: discountRate_def)

lemma spec_regionMultiplier_cases: "spec_regionMultiplier r \<in> {12 / 10, 11 / 10, 105 / 100, 1}"
  by (simp add: spec_regionMultiplier_def spec_region_table_def)

lemma spec_premiumMultiplier_cases: "spec_premiumMultiplier p \<in> {12 / 10, 1}"
  by (simp add: spec_premiumMultiplier_def)

lemma whole_cents:
  fixes d m q :: real
  assumes "d \<in> {0, 5 / 100, 10 / 100, 15 / 100}"
    and "m \<in> {12 / 10, 11 / 10, 105 / 100, 1}"
    and "q \<in> {12 / 10, 1}"
  shows "100 * (1 - d) * m * q * 100 \<in> \<int>"
  using assms by (elim insertE emptyE; hypsubst; simp)

text \<open>
  On an integer employee count the value handed to \<^verbatim>\<open>Math.round\<close> is a whole
  number, so the final rounding changes nothing.
\<close>

lemma scaled_price_is_integer:
  "basePrice v * (1 - discountRate v) * spec_regionMultiplier r * spec_premiumMultiplier p * 100 \<in> \<int>"
proof -
  have "basePrice v * (1 - discountRate v) * spec_regionMultiplier r * spec_premiumMultiplier p * 100
        = of_int (employees_count v)
          * (100 * (1 - discountRate v) * spec_regionMultiplier r * spec_premiumMultiplier p * 100)"
    by (simp add: basePrice_def)
  also have "\<dots> \<in> \<int>"
    using whole_cents[OF discountRate_cases spec_regionMultiplier_cases spec_premiumMultiplier_cases]
    by (rule Ints_mult[OF Ints_of_int])
  finally show ?thesis .
qed

lemma round2_exact:
  assumes "x * 100 \<in> \<int>"
  shows "round2 x = x"
proof -
  from assms obtain k :: int where k: "x * 100 = of_int k" by (auto elim: Ints_cases)
  have "\<lfloor>(of_int k :: real) + 1 / 2\<rfloor> = k" by linarith
  then show ?thesis using k by (simp add: round2_def)
qed

lemma estimate_exact:
  assumes "region v \<notin> set Object_prototype_keys"
  shows "calculateLocalEstimate v =
     Num (basePrice v * (1 - discountRate v) * spec_regionMultiplier (region v)
          * spec_premiumMultiplier (premium_48h v))"
  using estimate_round2[OF assms] round2_exact[OF scaled_price_is_integer] by simp


text \<open>
  Away from the inherited names the price per employee drops across each
  volume threshold.
\<close>

lemma unit_price_drops:
  assumes "region v \<notin> set Object_prototype_keys"
  shows "number_less (per_employee_price (v\<lparr>employees_count := 11\<rparr>))
                     (per_employee_price (v\<lparr>employees_count := 9\<rparr>))
       \<and> number_less (per_employee_price (v\<lparr>employees_count := 51\<rparr>))
                     (per_employee_price (v\<lparr>employees_count := 49\<rparr>))
       \<and> number_less (per_employee_price (v\<lparr>employees_count := 201\<rparr>))
                     (per_employee_price (v\<lparr>employees_count := 199\<rparr>))"
proof -
  have pos: "0 < spec_regionMultiplier (region v) * spec_premiumMultiplier (premium_48h v)"
    using spec_regionMultiplier_cases[of "region v"] spec_premiumMultiplier_cases[of "premium_48h v"]
    by (auto intro!: mult_pos_pos)
  have e: "calculateLocalEstimate (v\<lparr>employees_count := n\<rparr>) =
     Num (basePrice (v\<lparr>employees_count := n\<rparr>) * (1 - discountRate (v\<lparr>employees_count := n\<rparr>))
          * (spec_regionMultiplier (region v) * spec_premiumMultiplier (premium_48h v)))" for n
    using estimate_exact[of "v\<lparr>employees_count := n\<rparr>"] assms by (simp add: mult.assoc)
  show ?thesis
    using pos
    by (simp add: per_employee_price_def e basePrice_def discountRate_def mult.commute)
qed

section \<open>Double-precision arithmetic: rounding facts\<close>

lemma ilog2_bounds:
  assumes "0 < y"
  shows "2 powi (ilog2 y) \<le> y" and "y < 2 powi (ilog2 y + 1)"
proof -
  have "2 powi (ilog2 y) \<le> y \<and> y < 2 powi (ilog2 y + 1)"
  proof (cases "1 \<le> y")
    case True
    define n where "n = \<lfloor>y\<rfloor>"
    have n: "0 < n" "of_int n \<le> y" "y < of_int n + 1"
      using True unfolding n_def by linarith+
    define b where "b = bitlen n"
    have b1: "1 \<le> b" using n(1) by (simp add: b_def bitlen_alt_def)
    have bb: "2 ^ nat (b - 1) \<le> n" "n < 2 ^ nat b"
      using bitlen_bounds[OF n(1)] by (auto simp: b_def)
    have lo: "(2::real) powi (b - 1) \<le> y"
    proof -
      have "(2::real) powi (b - 1) = 2 ^ nat (b - 1)"
        using b1 by (simp add: power_int_def)
      moreover have "(2::real) ^ nat (b - 1) \<le> of_int n"
        using of_int_le_iff[of "2 ^ nat (b - 1)" n, where ?'a = real] bb(1) by simp
      ultimately show ?thesis using n(2) by linarith
    qed
    have hi: "y < (2::real) powi b"
    proof -
      have "n + 1 \<le> 2 ^ nat b" using bb(2) by simp
      then have "of_int n + 1 \<le> (2::real) ^ nat b"
        using of_int_le_iff[of "n + 1" "2 ^ nat b", where ?'a = real] by simp
      moreover have "(2::real) powi b = 2 ^ nat b" using b1 by (simp add: power_int_def)
      ultimately show ?thesis using n(3) by linarith
    qed
    show ?thesis using lo hi True by (simp add: ilog2_def n_def[symmetric] b_def[symmetric])
  next
    case False
    define z where "z = 1 / y"
    have z: "1 < z" using False assms by (simp add: z_def)
    define m where "m = \<lceil>z\<rceil> - 1"
    have m: "0 < m" "of_int m < z" "z \<le> of_int m + 1"
      using z unfolding m_def by linarith+
    define b where "b = bitlen m"
    have b1: "1 \<le> b" using m(1) by (simp add: b_def bitlen_alt_def)
    have bb: "2 ^ nat (b - 1) \<le> m" "m < 2 ^ nat b"
      using bitlen_bounds[OF m(1)] by (auto simp: b_def)
    have zhi: "z \<le> 2 ^ nat b"
    proof -
      have "m + 1 \<le> 2 ^ nat b" using bb(2) by simp
      then have "of_int m + 1 \<le> (2::real) ^ nat b"
        using of_int_le_iff[of "m + 1" "2 ^ nat b", where ?'a = real] by simp
      then show ?thesis using m(3) by linarith
    qed
    have zlo: "2 ^ nat (b - 1) < z"
    proof -
      have "(2::real) ^ nat (b - 1) \<le> of_int m"
        using of_int_le_iff[of "2 ^ nat (b - 1)" m, where ?'a = real] bb(1) by simp
      then show ?thesis using m(2) by linarith
    qed
    have y: "y = 1 / z" using assms by (simp add: z_def)
    have p1: "(2::real) powi (- b) = 1 / 2 ^ nat b"
    proof -
      have "(2::real) powi b = 2 ^ nat b" using b1 by (simp add: power_int_def)
      then show ?thesis by (simp add: power_int_minus_divide)
    qed
    have p2: "(2::real) powi (- b + 1) = 1 / 2 ^ nat (b - 1)"
    proof -
      have "(2::real) powi (b - 1) = 2 ^ nat (b - 1)" using b1 by (simp add: power_int_def)
      moreover have "(2::real) powi (- b + 1) = 2 powi (- (b - 1))" by simp
      ultimately show ?thesis by (simp only: power_int_minus_divide)
    qed
    have lo: "(2::real) powi (- b) \<le> y"
      unfolding p1 y using zhi z by (intro frac_le) simp_all
    have hi: "y < (2::real) powi (- b + 1)"
      unfolding p2 y using zlo z by (intro frac_less2) simp_all
    show ?thesis using lo hi False by (simp add: ilog2_def z_def[symmetric] m_def[symmetric] b_def[symmetric])
  qed
  then show "2 powi (ilog2 y) \<le> y" and "y < 2 powi (ilog2 y + 1)" by simp_all
qed

lemma powi2_less_D:
  assumes "(2::real) powi a < 2 powi b"
  shows "a < b"
proof (rule ccontr)
  assume "\<not> a < b"
  then have "b \<le> a" by simp
  then have "(2::real) powi b \<le> 2 powi a" by (rule power_int_increasing) simp
  then show False using assms by simp
qed

lemma ilog2_unique:
  assumes "2 powi q \<le> y" and "y < 2 powi (q + 1)"
  shows "ilog2 y = q"
proof -
  have y: "0 < y" using assms(1) by (smt (verit) zero_less_power_int)
  note b = ilog2_bounds[OF y]
  have "(2::real) powi q < 2 powi (ilog2 y + 1)" using assms(1) b(2) by linarith
  then have "q < ilog2 y + 1" by (rule powi2_less_D)
  moreover have "(2::real) powi (ilog2 y) < 2 powi (q + 1)" using assms(2) b(1) by linarith
  then have "ilog2 y < q + 1" by (rule powi2_less_D)
  ultimately show ?thesis by simp
qed

lemma round_even_near:
  assumes "\<bar>t - of_int m\<bar> < 1 / 2"
  shows "round_even t = m"
proof -
  have "\<lfloor>t\<rfloor> = m \<or> \<lfloor>t\<rfloor> = m - 1" using assms by linarith
  then show ?thesis
  proof
    assume f: "\<lfloor>t\<rfloor> = m"
    then have "t - of_int m < 1 / 2" using assms by linarith
    then show ?thesis by (simp add: round_even_def f Let_def)
  next
    assume f: "\<lfloor>t\<rfloor> = m - 1"
    then have "1 / 2 < t - of_int (m - 1)" using assms by linarith
    then show ?thesis by (simp add: round_even_def f Let_def)
  qed
qed

lemma round_even_err: "\<bar>of_int (round_even t) - t\<bar> \<le> 1 / 2"
  unfolding round_even_def Let_def by (auto; linarith)

lemma round_even_of_int [simp]: "round_even (of_int k) = k"
  by (rule round_even_near) simp

lemma rd_normal:
  assumes "2 powi q \<le> \<bar>x\<bar>" and "\<bar>x\<bar> < 2 powi (q + 1)" and "- 1022 \<le> q" and "q \<le> 1022"
  shows "rd x = Finite (of_int (round_even (x / 2 powi (q - 52))) * 2 powi (q - 52))"
    and "\<bar>of_int (round_even (x / 2 powi (q - 52))) * 2 powi (q - 52) - x\<bar> \<le> 2 powi (q - 53)"
proof -
  have x0: "x \<noteq> 0" using assms(1) by (smt (verit) zero_less_power_int)
  have q: "ilog2 \<bar>x\<bar> = q" using assms(1,2) by (rule ilog2_unique)
  define e where "e = q - 52"
  define m where "m = round_even (x / 2 powi e)"
  have e: "max (ilog2 \<bar>x\<bar> - 52) (- 1074) = e" using assms(3) by (simp add: q e_def)
  have pe: "(0::real) < 2 powi e" by simp
  have "\<bar>of_int m - x / 2 powi e\<bar> \<le> 1 / 2" unfolding m_def by (rule round_even_err)
  then have "\<bar>of_int m - x / 2 powi e\<bar> * 2 powi e \<le> 1 / 2 * 2 powi e"
    using pe by (intro mult_right_mono) simp_all
  moreover have "\<bar>of_int m - x / 2 powi e\<bar> * 2 powi e = \<bar>of_int m * 2 powi e - x\<bar>"
  proof -
    have "\<bar>of_int m - x / 2 powi e\<bar> * 2 powi e = \<bar>(of_int m - x / 2 powi e) * 2 powi e\<bar>"
      using pe by (simp add: abs_mult)
    also have "(of_int m - x / 2 powi e) * 2 powi e = of_int m * 2 powi e - x"
      using pe by (simp add: field_simps)
    finally show ?thesis .
  qed
  moreover have "1 / 2 * (2::real) powi e = 2 powi (q - 53)"
  proof -
    have "(2::real) powi (q - 53) = 2 powi (e + (- 1))" by (simp add: e_def)
    also have "\<dots> = 2 powi e * 2 powi (- 1)" by (subst power_int_add) simp_all
    finally show ?thesis by simp
  qed
  ultimately have err: "\<bar>of_int m * 2 powi e - x\<bar> \<le> 2 powi (q - 53)" by simp
  have "(2::real) powi (q - 53) \<le> 2 powi q" by (rule power_int_increasing) simp_all
  then have "\<bar>of_int m * 2 powi e\<bar> \<le> \<bar>x\<bar> + 2 powi q" using err by linarith
  also have "\<dots> < 2 powi (q + 1) + 2 powi (q + 1)"
  proof -
    have "(2::real) powi q \<le> 2 powi (q + 1)" by (rule power_int_increasing) simp_all
    then show ?thesis using assms(2) by linarith
  qed
  also have "\<dots> = 2 powi (q + 2)"
  proof -
    have "(2::real) powi (q + 2) = 2 powi (q + 1 + 1)" by (simp add: add.assoc)
    also have "\<dots> = 2 powi (q + 1) * 2 powi 1" by (subst power_int_add) simp_all
    finally show ?thesis by simp
  qed
  also have "\<dots> \<le> 2 powi 1024" using assms(4) by (intro power_int_increasing) simp_all
  finally have "\<not> (2::real) ^ 1024 \<le> \<bar>of_int m * 2 powi e\<bar>" by simp
  then show "rd x = Finite (of_int (round_even (x / 2 powi (q - 52))) * 2 powi (q - 52))"
    using x0 by (simp add: rd_def e Let_def m_def[symmetric] e_def[symmetric])
  show "\<bar>of_int (round_even (x / 2 powi (q - 52))) * 2 powi (q - 52) - x\<bar> \<le> 2 powi (q - 53)"
    using err by (simp add: m_def e_def)
qed

text \<open>Relative error of one rounding in the normal range.\<close>

lemma rd_rel:
  assumes "2 powi (- 1022) \<le> \<bar>x\<bar>" and "\<bar>x\<bar> < 2 powi 1023"
  obtains r where "rd x = Finite r" and "\<bar>r - x\<bar> \<le> ulp_unit * \<bar>x\<bar>"
proof -
  have x: "0 < \<bar>x\<bar>" using assms(1) by (smt (verit) zero_less_power_int)
  define q where "q = ilog2 \<bar>x\<bar>"
  have b: "2 powi q \<le> \<bar>x\<bar>" "\<bar>x\<bar> < 2 powi (q + 1)"
    using ilog2_bounds[OF x] by (simp_all add: q_def)
  have "(2::real) powi (- 1022) < 2 powi (q + 1)" using assms(1) b(2) by linarith
  then have q1: "- 1022 \<le> q" using powi2_less_D by fastforce
  have "(2::real) powi q < 2 powi 1023" using assms(2) b(1) by linarith
  then have q2: "q \<le> 1022" using powi2_less_D by fastforce
  note n = rd_normal[OF b q1 q2]
  have "(2::real) powi (q - 53) = 2 powi (- 53 + q)" by (simp add: add.commute)
  also have "\<dots> = ulp_unit * 2 powi q" unfolding ulp_unit_def by (subst power_int_add) simp_all
  also have "\<dots> \<le> ulp_unit * \<bar>x\<bar>" using b(1) by (intro mult_left_mono) (simp_all add: ulp_unit_def)
  finally show ?thesis using n that by fastforce
qed

text \<open>Integers below \<open>2^53\<close> are doubles.\<close>

lemma rd_of_int:
  assumes "\<bar>k\<bar> < 2 ^ 53"
  shows "rd (of_int k) = Finite (of_int k)"
proof (cases "k = 0")
  case True
  then show ?thesis by (simp add: rd_def)
next
  case False
  define x :: real where "x = of_int k"
  have x1: "1 \<le> \<bar>x\<bar>"
  proof -
    have "1 \<le> \<bar>k\<bar>" using False by simp
    then have "(of_int 1 :: real) \<le> of_int \<bar>k\<bar>" by (simp only: of_int_le_iff)
    then show ?thesis by (simp add: x_def)
  qed
  have xlt: "\<bar>x\<bar> < 2 powi 53"
  proof -
    have "(of_int \<bar>k\<bar> :: real) < of_int (2 ^ 53)" using assms by (simp only: of_int_less_iff)
    then show ?thesis by (simp add: x_def)
  qed
  define q where "q = ilog2 \<bar>x\<bar>"
  have b: "2 powi q \<le> \<bar>x\<bar>" "\<bar>x\<bar> < 2 powi (q + 1)"
    using ilog2_bounds[of "\<bar>x\<bar>"] x1 by (simp_all add: q_def)
  have "(2::real) powi 0 < 2 powi (q + 1)" using x1 b(2) by simp
  then have q0: "0 \<le> q" using powi2_less_D by fastforce
  have "(2::real) powi q < 2 powi 53" using xlt b(1) by linarith
  then have q52: "q \<le> 52" using powi2_less_D by fastforce
  have n: "rd x = Finite (of_int (round_even (x / 2 powi (q - 52))) * 2 powi (q - 52))"
    using q0 q52 by (intro rd_normal[OF b]) simp_all
  define j where "j = nat (52 - q)"
  have pj: "(2::real) powi (q - 52) = 1 / 2 ^ j"
  proof -
    have "(2::real) powi (q - 52) = 2 powi (- int j)" using q52 by (simp add: j_def)
    then show ?thesis by (simp add: power_int_minus_divide)
  qed
  have "x / 2 powi (q - 52) = of_int (k * 2 ^ j)" by (simp add: pj x_def)
  then have "round_even (x / 2 powi (q - 52)) = k * 2 ^ j" by (simp only: round_even_of_int)
  then show ?thesis using n by (simp add: pj x_def)
qed

text \<open>Reading off a rounding from its result.\<close>

lemma rd_nearest:
  assumes "2 powi q \<le> \<bar>x\<bar>" and "\<bar>x\<bar> < 2 powi (q + 1)" and "- 1022 \<le> q" and "q \<le> 1022"
    and "\<bar>x - of_int m * 2 powi (q - 52)\<bar> < 2 powi (q - 53)"
  shows "rd x = Finite (of_int m * 2 powi (q - 52))"
proof -
  define e where "e = q - 52"
  have pe: "(0::real) < 2 powi e" by simp
  have half: "(2::real) powi (q - 53) = 1 / 2 * 2 powi e"
  proof -
    have "(2::real) powi (q - 53) = 2 powi (e + (- 1))" by (simp add: e_def)
    also have "\<dots> = 2 powi e * 2 powi (- 1)" by (subst power_int_add) simp_all
    finally show ?thesis by simp
  qed
  have "\<bar>x / 2 powi e - of_int m\<bar> * 2 powi e = \<bar>(x / 2 powi e - of_int m) * 2 powi e\<bar>"
    using pe by (simp add: abs_mult)
  also have "(x / 2 powi e - of_int m) * 2 powi e = x - of_int m * 2 powi e"
    using pe by (simp add: field_simps)
  finally have "\<bar>x / 2 powi e - of_int m\<bar> * 2 powi e < 1 / 2 * 2 powi e"
    using assms(5) by (simp add: half e_def)
  then have "\<bar>x / 2 powi e - of_int m\<bar> < 1 / 2" using pe by simp
  then have "round_even (x / 2 powi e) = m" by (rule round_even_near)
  then show ?thesis using rd_normal(1)[OF assms(1-4)] by (simp add: e_def)
qed

lemma ulp_unit_pos: "0 < ulp_unit"
  by (simp add: ulp_unit_def)

lemma ulp_unit_small: "ulp_unit \<le> 1 / 2 ^ 20"
proof -
  have "(2::real) powi (- 53) \<le> 2 powi (- 20)" by (rule power_int_increasing) simp_all
  then show ?thesis by (simp add: ulp_unit_def power_int_minus_divide)
qed

lemma rd_eqI:
  assumes "2 powi q \<le> \<bar>x\<bar>" and "\<bar>x\<bar> < 2 powi (q + 1)" and "- 1022 \<le> q" and "q \<le> 1022"
    and "r = of_int m * 2 powi (q - 52)" and "\<bar>x - r\<bar> < 2 powi (q - 53)"
  shows "rd x = Finite r"
  using rd_nearest[OF assms(1-4), of m] assms(5,6) by simp

lemma product_error:
  fixes x y X Y a b :: real
  assumes "0 < X" and "0 < Y" and "\<bar>x - X\<bar> \<le> a * X" and "\<bar>y - Y\<bar> \<le> b * Y"
    and "0 \<le> a" and "0 \<le> b"
  shows "\<bar>x * y - X * Y\<bar> \<le> (a + b + a * b) * (X * Y)"
proof -
  have xb: "\<bar>x\<bar> \<le> (1 + a) * X" using assms(1,3) by (simp add: algebra_simps)
  have "x * y - X * Y = (x - X) * Y + x * (y - Y)" by (simp add: algebra_simps)
  then have "\<bar>x * y - X * Y\<bar> \<le> \<bar>x - X\<bar> * \<bar>Y\<bar> + \<bar>x\<bar> * \<bar>y - Y\<bar>"
    by (metis abs_mult abs_triangle_ineq)
  also have "\<bar>x - X\<bar> * \<bar>Y\<bar> \<le> a * X * Y"
    using assms(2,3) by (simp add: mult_right_mono)
  also have "\<bar>x\<bar> * \<bar>y - Y\<bar> \<le> (1 + a) * X * (b * Y)"
    using xb assms(4) assms(1,2,5,6) by (intro mult_mono) simp_all
  finally show ?thesis by (simp add: algebra_simps)
qed

lemma times_step:
  fixes x y X Y a b :: real
  assumes X: "0 < X" and Y: "0 < Y" and x: "\<bar>x - X\<bar> \<le> a * X" and y: "\<bar>y - Y\<bar> \<le> b * Y"
    and a: "0 \<le> a" "a \<le> 16 * ulp_unit" and b: "0 \<le> b" "b \<le> 16 * ulp_unit"
    and range: "1 \<le> X * Y" "X * Y \<le> 2 ^ 60"
  obtains z where "d_times (Finite x) (Finite y) = Finite z"
    and "\<bar>z - X * Y\<bar> \<le> (a + b + 2 * ulp_unit) * (X * Y)"
proof -
  define u where "u = ulp_unit"
  have u: "0 < u" "u \<le> 1 / 2 ^ 20" using ulp_unit_pos ulp_unit_small by (simp_all add: u_def)
  have a': "a \<le> 16 * u" and b': "b \<le> 16 * u" using a b by (simp_all add: u_def)
  define c where "c = a + b + a * b"
  have c0: "0 \<le> c" using a(1) b(1) by (simp add: c_def)
  have ab: "a * b \<le> 16 * u * (16 * u)" using a' b' a(1) b(1) by (intro mult_mono) simp_all
  have uu: "u * u \<le> u / 2 ^ 20"
  proof -
    have "u * u \<le> u * (1 / 2 ^ 20)" using u by (intro mult_left_mono) simp_all
    then show ?thesis by simp
  qed
  have abu: "a * b \<le> u / 4096" using ab uu by (simp add: algebra_simps)
  have csmall: "c \<le> 33 * u" using a' b' abu u by (simp add: c_def)
  have cless: "c \<le> 1 / 2" using csmall u by simp
  have P: "0 < X * Y" using X Y by simp
  have pe: "\<bar>x * y - X * Y\<bar> \<le> c * (X * Y)"
    unfolding c_def by (rule product_error[OF X Y x y a(1) b(1)])
  have lo: "X * Y / 2 \<le> x * y"
  proof -
    have "c * (X * Y) \<le> 1 / 2 * (X * Y)" using cless P by (intro mult_right_mono) simp_all
    then show ?thesis using pe by linarith
  qed
  have hi: "x * y \<le> 2 * (X * Y)"
  proof -
    have "c * (X * Y) \<le> 1 / 2 * (X * Y)" using cless P by (intro mult_right_mono) simp_all
    then show ?thesis using pe P by linarith
  qed
  have pos: "0 < x * y" using lo P by linarith
  have r1: "2 powi (- 1022) \<le> \<bar>x * y\<bar>"
  proof -
    have "(2::real) powi (- 1022) \<le> 2 powi (- 1)" by (rule power_int_increasing) simp_all
    also have "\<dots> = 1 / 2" by simp
    finally show ?thesis using lo range(1) pos by linarith
  qed
  have r2: "\<bar>x * y\<bar> < 2 powi 1023"
  proof -
    have "\<bar>x * y\<bar> \<le> 2 * 2 ^ 60" using hi range(2) pos by linarith
    also have "\<dots> = (2::real) powi 61" by simp
    also have "\<dots> < 2 powi 1023" by (rule power_int_strict_increasing) simp_all
    finally show ?thesis .
  qed
  obtain z where z: "rd (x * y) = Finite z" "\<bar>z - x * y\<bar> \<le> ulp_unit * \<bar>x * y\<bar>"
    using rd_rel[OF r1 r2] by blast
  have xyb: "\<bar>x * y\<bar> \<le> (1 + c) * (X * Y)" using pe pos by (simp add: algebra_simps)
  have "\<bar>z - x * y\<bar> \<le> u * ((1 + c) * (X * Y))"
  proof -
    have "u * \<bar>x * y\<bar> \<le> u * ((1 + c) * (X * Y))" using xyb u(1) by (intro mult_left_mono) simp_all
    then show ?thesis using z(2) by (simp add: u_def)
  qed
  then have "\<bar>z - X * Y\<bar> \<le> (c + u + u * c) * (X * Y)"
    using pe by (simp add: algebra_simps)
  moreover have "c + u + u * c \<le> a + b + 2 * u"
  proof -
    define t where "t = u * c"
    have "t \<le> u * (33 * u)" unfolding t_def using csmall u(1) by (intro mult_left_mono) simp_all
    also have "\<dots> = 33 * (u * u)" by simp
    also have "\<dots> \<le> 33 * (u / 2 ^ 20)" using uu by simp
    finally have "t \<le> u / 2" using u(1) by simp
    then have "c + u + t \<le> a + b + 2 * u" using abu u(1) by (simp add: c_def)
    then show ?thesis by (simp add: t_def)
  qed
  then have "(c + u + u * c) * (X * Y) \<le> (a + b + 2 * u) * (X * Y)"
    using P by (intro mult_right_mono) simp_all
  ultimately have "\<bar>z - X * Y\<bar> \<le> (a + b + 2 * ulp_unit) * (X * Y)" by (simp add: u_def)
  then show ?thesis using z(1) that by simp
qed

lemma rd_literal:
  assumes "1 / 32 \<le> c" and "c \<le> 2"
  obtains ch where "rd c = Finite ch" and "\<bar>ch - c\<bar> \<le> ulp_unit * c"
proof -
  have c: "0 < c" using assms(1) by simp
  have "(2::real) powi (- 1022) \<le> 2 powi (- 5)" by (rule power_int_increasing) simp_all
  also have "\<dots> = 1 / 32" by (simp add: power_int_minus_divide)
  finally have r1: "2 powi (- 1022) \<le> \<bar>c\<bar>" using assms(1) by simp
  have "(2::real) powi 1 < 2 powi 1023" by (rule power_int_strict_increasing) simp_all
  then have r2: "\<bar>c\<bar> < 2 powi 1023" using assms(2) c by simp
  show ?thesis using rd_rel[OF r1 r2] that c by fastforce
qed

lemma one_minus_literal:
  assumes "1 / 32 \<le> d" and "d \<le> 15 / 100"
  obtains s where "d_minus (Finite 1) (rd d) = Finite s"
    and "\<bar>s - (1 - d)\<bar> \<le> 2 * ulp_unit * (1 - d)"
proof -
  define u where "u = ulp_unit"
  have u: "0 < u" "u \<le> 1 / 2 ^ 20" using ulp_unit_pos ulp_unit_small by (simp_all add: u_def)
  obtain dh where dh: "rd d = Finite dh" "\<bar>dh - d\<bar> \<le> u * d"
    using rd_literal[of d] assms by (auto simp: u_def)
  have ud: "u * d \<le> u * (15 / 100)" using assms(2) u(1) by (intro mult_left_mono) simp_all
  have "u \<le> 1 / 1048576" using u(2) by simp
  then have ud2: "u * d \<le> 1 / 1048576 * d" using assms(1) by (intro mult_right_mono) simp_all
  have dh0: "0 \<le> dh" using dh(2) ud2 assms by linarith
  have dh1: "dh \<le> 1 / 2" using dh(2) ud2 assms by linarith
  note dhb = dh0 dh1
  define w where "w = 1 - dh"
  have w: "1 / 2 \<le> w" "w \<le> 1" using dhb by (simp_all add: w_def)
  obtain s where s: "rd w = Finite s" "\<bar>s - w\<bar> \<le> u * w"
    using rd_literal[of w] w by (auto simp: u_def)
  have "u * w \<le> u * 1" using w(2) u(1) by (intro mult_left_mono) simp_all
  moreover have "w = 1 - dh" by (simp add: w_def)
  ultimately have "\<bar>s - (1 - d)\<bar> \<le> u + u * (15 / 100)"
    using s(2) dh(2) ud by linarith
  moreover have "2 * u * (85 / 100) \<le> 2 * u * (1 - d)"
    using assms(2) u(1) by (intro mult_left_mono) simp_all
  ultimately have "\<bar>s - (1 - d)\<bar> \<le> 2 * u * (1 - d)" using u(1) by linarith
  then have "\<bar>s - (1 - d)\<bar> \<le> 2 * ulp_unit * (1 - d)" by (simp add: u_def)
  moreover have "d_minus (Finite 1) (rd d) = Finite s"
    by (simp add: d_minus_def dh(1) s(1)[unfolded w_def])
  ultimately show ?thesis using that by blast
qed

lemma one_minus_zero: "d_minus (Finite 1) (Finite 0) = Finite 1"
  using rd_of_int[of 1] by (simp add: d_minus_def)

text \<open>The last three operations: scale to cents, \<^verbatim>\<open>Math.round\<close>, scale back.\<close>

lemma round_to_cents:
  fixes p P :: real and k :: int
  assumes P: "1 \<le> P" "P \<le> 2 ^ 38" and p: "\<bar>p - P\<bar> \<le> 10 * ulp_unit * P"
    and k: "P * 100 = of_int k"
  shows "d_divide (d_round (d_times (Finite p) (Finite 100))) (Finite 100) = rd (of_int k / 100)"
proof -
  define u where "u = ulp_unit"
  have u: "0 < u" using ulp_unit_pos by (simp add: u_def)
  have ueq: "u = 1 / 2 ^ 53" by (simp add: u_def ulp_unit_def power_int_minus_divide)
  obtain t where t: "d_times (Finite p) (Finite 100) = Finite t"
    and terr: "\<bar>t - P * 100\<bar> \<le> (10 * ulp_unit + 0 + 2 * ulp_unit) * (P * 100)"
  proof (rule times_step[of P 100 p "10 * ulp_unit" 100 0])
    show "0 < P" using P by simp
    show "\<bar>p - P\<bar> \<le> 10 * ulp_unit * P" by (rule p)
    show "P * 100 \<le> 2 ^ 60" using P(2) by simp
    show "1 \<le> P * 100" using P(1) by simp
  qed (use ulp_unit_pos in simp_all)
  have "(12 * u) * (P * 100) \<le> (12 * u) * (2 ^ 38 * 100)"
    using P u by (intro mult_left_mono) simp_all
  also have "\<dots> < 1 / 2" unfolding ueq by simp
  finally have "\<bar>t - of_int k\<bar> < 1 / 2" using terr k by (simp add: u_def)
  then have "\<lfloor>t + 1 / 2\<rfloor> = k" by linarith
  then have "d_round (Finite t) = Finite (of_int k)" by simp
  moreover have "d_divide (Finite (of_int k)) (Finite 100) = rd (of_int k / 100)" by simp
  ultimately show ?thesis using t by simp
qed

lemma one_minus_literal_ex:
  assumes "1 / 32 \<le> d" and "d \<le> 15 / 100"
  shows "\<exists>s. d_minus (Finite 1) (rd d) = Finite s \<and> \<bar>s - (1 - d)\<bar> \<le> 2 * ulp_unit * (1 - d)"
  using one_minus_literal[OF assms] by blast

lemma discount_step:
  fixes n :: int
  shows "\<exists>s. d_minus (Finite 1)
            (if d_greater (Finite (of_int n)) (Finite 200) then rd (15 / 100)
             else if d_greater (Finite (of_int n)) (Finite 50) then rd (10 / 100)
             else if d_greater (Finite (of_int n)) (Finite 10) then rd (5 / 100)
             else Finite 0) = Finite s
         \<and> \<bar>s - (1 - (if n > 200 then 15 / 100 else if n > 50 then 10 / 100
               else if n > 10 then 5 / 100 else (0::real)))\<bar>
           \<le> 2 * ulp_unit * (1 - (if n > 200 then 15 / 100 else if n > 50 then 10 / 100
               else if n > 10 then 5 / 100 else (0::real)))"
proof -
  have a: "\<exists>s. d_minus (Finite 1) (rd (15 / 100)) = Finite s
             \<and> \<bar>s - (1 - 15 / 100)\<bar> \<le> 2 * ulp_unit * (1 - 15 / 100)"
    by (rule one_minus_literal_ex) simp_all
  have b: "\<exists>s. d_minus (Finite 1) (rd (10 / 100)) = Finite s
             \<and> \<bar>s - (1 - 10 / 100)\<bar> \<le> 2 * ulp_unit * (1 - 10 / 100)"
    by (rule one_minus_literal_ex) simp_all
  have c: "\<exists>s. d_minus (Finite 1) (rd (5 / 100)) = Finite s
             \<and> \<bar>s - (1 - 5 / 100)\<bar> \<le> 2 * ulp_unit * (1 - 5 / 100)"
    by (rule one_minus_literal_ex) simp_all
  have z: "\<exists>s. d_minus (Finite 1) (Finite 0) = Finite s
             \<and> \<bar>s - (1 - 0)\<bar> \<le> 2 * ulp_unit * (1 - 0)"
    using one_minus_zero ulp_unit_pos by simp
  consider "200 < n" | "50 < n" "n \<le> 200" | "10 < n" "n \<le> 50" | "n \<le> 10" by linarith
  then show ?thesis
  proof cases
    case 1
    then show ?thesis using a by simp
  next
    case 2
    then show ?thesis using b by simp
  next
    case 3
    then show ?thesis using c by simp
  next
    case 4
    then show ?thesis using z by simp
  qed
qed

lemma estimate_double_positive:
  assumes n: "1 \<le> employees_count v" "employees_count v \<le> 10 ^ 9"
    and reg: "region v \<notin> set Object_prototype_keys"
  shows "calculateLocalEstimate_double (Finite (of_int (employees_count v))) (region v)
           (premium_48h v)
         = rd (basePrice v * (1 - discountRate v) * spec_regionMultiplier (region v)
               * spec_premiumMultiplier (premium_48h v))"
proof -
  define n where "n = employees_count v"
  define B where "B = basePrice v"
  define d where "d = discountRate v"
  define m where "m = spec_regionMultiplier (region v)"
  define q where "q = spec_premiumMultiplier (premium_48h v)"
  define u where "u = ulp_unit"
  have u: "0 < u" using ulp_unit_pos by (simp add: u_def)
  have n1: "1 \<le> n" "n \<le> 10 ^ 9" using n by (simp_all add: n_def)
  have Bn: "B = of_int (n * 100)" by (simp add: B_def basePrice_def n_def)
  have Bb: "100 \<le> B" "B \<le> 10 ^ 11"
  proof -
    have "(of_int 1 :: real) \<le> of_int n" "(of_int n :: real) \<le> of_int (10 ^ 9)"
      using n1 by (simp_all only: of_int_le_iff)
    then show "100 \<le> B" "B \<le> 10 ^ 11" by (simp_all add: Bn)
  qed
  have db: "0 \<le> d" "d \<le> 15 / 100"
    using discountRate_cases[of v] by (auto simp: d_def)
  have mb: "1 \<le> m" "m \<le> 12 / 10"
    using spec_regionMultiplier_cases[of "region v"] by (auto simp: m_def)
  have qb: "1 \<le> q" "q \<le> 12 / 10"
    by (simp_all add: q_def spec_premiumMultiplier_def)
  \<comment> \<open>base price\<close>
  have base: "d_times (Finite (of_int n)) (Finite 100) = Finite B"
  proof -
    have "\<bar>n * 100\<bar> < 2 ^ 53" using n1 by simp
    then have "rd (of_int (n * 100)) = Finite (of_int (n * 100))" by (rule rd_of_int)
    then show ?thesis by (simp add: Bn)
  qed
  \<comment> \<open>one minus the discount rate\<close>
  define dr where "dr = (if d_greater (Finite (of_int n)) (Finite 200) then rd (15 / 100)
             else if d_greater (Finite (of_int n)) (Finite 50) then rd (10 / 100)
             else if d_greater (Finite (of_int n)) (Finite 10) then rd (5 / 100)
             else Finite 0)"
  have d_alt: "d = (if n > 200 then 15 / 100 else if n > 50 then 10 / 100
               else if n > 10 then 5 / 100 else (0::real))"
    by (simp add: d_def discountRate_def n_def)
  obtain s where s: "d_minus (Finite 1) dr = Finite s" "\<bar>s - (1 - d)\<bar> \<le> 2 * u * (1 - d)"
    using discount_step[of n] unfolding dr_def d_alt u_def by blast
  \<comment> \<open>price after the discount\<close>
  have Bd: "85 \<le> B * (1 - d)" "B * (1 - d) \<le> 10 ^ 11"
  proof -
    have "100 * (85 / 100) \<le> B * (1 - d)" by (rule mult_mono) (use Bb db in simp_all)
    then show "85 \<le> B * (1 - d)" by simp
    have "B * (1 - d) \<le> 10 ^ 11 * 1" by (rule mult_mono) (use Bb db in simp_all)
    then show "B * (1 - d) \<le> 10 ^ 11" by simp
  qed
  obtain p1 where p1: "d_times (Finite B) (Finite s) = Finite p1"
    "\<bar>p1 - B * (1 - d)\<bar> \<le> 4 * u * (B * (1 - d))"
  proof -
    obtain z where "d_times (Finite B) (Finite s) = Finite z"
      "\<bar>z - B * (1 - d)\<bar> \<le> (0 + 2 * ulp_unit + 2 * ulp_unit) * (B * (1 - d))"
    proof (rule times_step[of B "1 - d" B 0 s "2 * ulp_unit"])
      show "\<bar>s - (1 - d)\<bar> \<le> 2 * ulp_unit * (1 - d)" using s(2) by (simp add: u_def)
      show "1 \<le> B * (1 - d)" using Bd by simp
      show "B * (1 - d) \<le> 2 ^ 60" using Bd by simp
    qed (use Bb db ulp_unit_pos in simp_all)
    then show ?thesis using that by (simp add: u_def)
  qed
  \<comment> \<open>region multiplier\<close>
  obtain mh where mh: "rd m = Finite mh" "\<bar>mh - m\<bar> \<le> u * m"
    using rd_literal[of m] mb unfolding u_def by auto
  have lookup: "to_double (to_number (js_or (get_property regionMultipliers (region v))
                   (JsNumber (Num 1)))) = Finite mh"
    using region_lookup[OF reg] mh(1) by (simp add: m_def)
  have Bdm: "85 \<le> B * (1 - d) * m" "B * (1 - d) * m \<le> 12 * 10 ^ 10"
  proof -
    have "85 * 1 \<le> B * (1 - d) * m" by (rule mult_mono) (use Bd mb in simp_all)
    then show "85 \<le> B * (1 - d) * m" by simp
    have "B * (1 - d) * m \<le> 10 ^ 11 * (12 / 10)" by (rule mult_mono) (use Bd mb in simp_all)
    then show "B * (1 - d) * m \<le> 12 * 10 ^ 10" by simp
  qed
  obtain p2 where p2: "d_times (Finite p1) (Finite mh) = Finite p2"
    "\<bar>p2 - B * (1 - d) * m\<bar> \<le> 7 * u * (B * (1 - d) * m)"
  proof -
    obtain z where "d_times (Finite p1) (Finite mh) = Finite z"
      "\<bar>z - B * (1 - d) * m\<bar> \<le> (4 * ulp_unit + ulp_unit + 2 * ulp_unit) * (B * (1 - d) * m)"
    proof (rule times_step[of "B * (1 - d)" m p1 "4 * ulp_unit" mh ulp_unit])
      show "\<bar>p1 - B * (1 - d)\<bar> \<le> 4 * ulp_unit * (B * (1 - d))" using p1(2) by (simp add: u_def)
      show "\<bar>mh - m\<bar> \<le> ulp_unit * m" using mh(2) by (simp add: u_def)
      show "1 \<le> B * (1 - d) * m" using Bdm by simp
      show "B * (1 - d) * m \<le> 2 ^ 60" using Bdm by simp
    qed (use Bd mb ulp_unit_pos in simp_all)
    then show ?thesis using that by (simp add: u_def)
  qed
  \<comment> \<open>premium\<close>
  define P where "P = B * (1 - d) * m * q"
  have Pb: "1 \<le> P" "P \<le> 2 ^ 38"
  proof -
    have "85 * 1 \<le> B * (1 - d) * m * q" by (rule mult_mono) (use Bdm qb in simp_all)
    then show "1 \<le> P" by (simp add: P_def)
    have "B * (1 - d) * m * q \<le> 12 * 10 ^ 10 * (12 / 10)" by (rule mult_mono) (use Bdm qb in simp_all)
    then show "P \<le> 2 ^ 38" by (simp add: P_def)
  qed
  obtain p where p: "(if premium_48h v then d_times (Finite p2) (rd (120 / 100)) else Finite p2)
                      = Finite p" "\<bar>p - P\<bar> \<le> 10 * u * P"
  proof (cases "premium_48h v")
    case True
    then have q: "q = 12 / 10" by (simp add: q_def spec_premiumMultiplier_def)
    obtain qh where qh: "rd (120 / 100) = Finite qh" "\<bar>qh - q\<bar> \<le> u * q"
      using rd_literal[of "120 / 100"] unfolding u_def q by auto
    obtain z where z: "d_times (Finite p2) (Finite qh) = Finite z"
      "\<bar>z - B * (1 - d) * m * q\<bar> \<le> (7 * ulp_unit + ulp_unit + 2 * ulp_unit) * (B * (1 - d) * m * q)"
    proof (rule times_step[of "B * (1 - d) * m" q p2 "7 * ulp_unit" qh ulp_unit])
      show "\<bar>p2 - B * (1 - d) * m\<bar> \<le> 7 * ulp_unit * (B * (1 - d) * m)"
        using p2(2) by (simp add: u_def)
      show "\<bar>qh - q\<bar> \<le> ulp_unit * q" using qh(2) by (simp add: u_def)
      show "1 \<le> B * (1 - d) * m * q" using Pb by (simp add: P_def)
      show "B * (1 - d) * m * q \<le> 2 ^ 60" using Pb by (simp add: P_def)
    qed (use Bdm qb ulp_unit_pos in simp_all)
    show ?thesis
      by (rule that[of z]) (use True z qh(1) in \<open>simp_all add: P_def u_def\<close>)
  next
    case False
    then have q: "q = 1" by (simp add: q_def spec_premiumMultiplier_def)
    have "7 * u * P \<le> 10 * u * P" using u Pb by simp
    then show ?thesis
      using that[of p2] False p2(2) by (simp add: P_def q)
  qed
  \<comment> \<open>rounding to cents\<close>
  have "P * 100 \<in> \<int>"
    using scaled_price_is_integer[of v "region v" "premium_48h v"]
    by (simp add: P_def B_def d_def m_def q_def)
  then obtain k :: int where k: "P * 100 = of_int k" by (auto elim: Ints_cases)
  have "d_divide (d_round (d_times (Finite p) (Finite 100))) (Finite 100) = rd (of_int k / 100)"
    using round_to_cents[OF Pb _ k, of p] p(2) by (simp add: u_def)
  moreover have "of_int k / 100 = P" using k by simp
  moreover have "price_before_rounding (Finite (of_int n)) (region v) (premium_48h v) = Finite p"
    unfolding price_before_rounding_def Let_def base dr_def[symmetric] s(1) p1(1) lookup p2(1)
    by (rule p(1))
  ultimately show ?thesis
    by (simp add: calculateLocalEstimate_double_def P_def B_def d_def m_def q_def n_def)
qed

section \<open>The price estimate in double-precision arithmetic\<close>

lemma estimate_double_zero:
  assumes "reg \<notin> set Object_prototype_keys"
  shows "calculateLocalEstimate_double (Finite 0) reg premium = Finite 0"
proof -
  have m: "1 / 32 \<le> spec_regionMultiplier reg" "spec_regionMultiplier reg \<le> 2"
    using spec_regionMultiplier_cases[of reg] by auto
  obtain mh where mh: "rd (spec_regionMultiplier reg) = Finite mh"
    using rd_literal[OF m] by blast
  obtain qh where qh: "rd (120 / 100) = Finite qh"
    using rd_literal[of "120 / 100"] by auto
  have lookup: "to_double (to_number (js_or (get_property regionMultipliers reg)
                   (JsNumber (Num 1)))) = Finite mh"
    using region_lookup[OF assms] mh by simp
  have z: "rd 0 = Finite 0" by (simp add: rd_def)
  have "price_before_rounding (Finite 0) reg premium = Finite 0"
    unfolding price_before_rounding_def Let_def lookup qh
    by (simp add: one_minus_zero z)
  then show ?thesis by (simp add: calculateLocalEstimate_double_def z)
qed

text \<open>
  For an integer employee count of at most \<open>10^9\<close> the cascade computed in
  doubles ends on the double nearest to the exact price.
\<close>

lemma estimate_double_nearest:
  assumes "0 \<le> employees_count v" and "employees_count v \<le> 10 ^ 9"
    and "region v \<notin> set Object_prototype_keys"
  shows "calculateLocalEstimate_double (Finite (of_int (employees_count v))) (region v)
           (premium_48h v)
         = rd (basePrice v * (1 - discountRate v) * spec_regionMultiplier (region v)
               * spec_premiumMultiplier (premium_48h v))"
proof (cases "employees_count v = 0")
  case True
  then show ?thesis
    using estimate_double_zero[OF assms(3), of "premium_48h v"]
    by (simp add: basePrice_def rd_def)
next
  case False
  then have "1 \<le> employees_count v" using assms(1) by simp
  then show ?thesis using assms(2,3) by (rule estimate_double_positive)
qed

lemma spec_finalPrice_untiered:
  "spec_finalPrice STANDARD v
     = basePrice v * (1 - discountRate v) * spec_regionMultiplier (region v)
       * spec_premiumMultiplier (premium_48h v)"
  "spec_finalPrice LOW v = spec_finalPrice STANDARD v"
  "spec_finalPrice STANDARD v * 100 \<in> \<int>"
proof -
  have e: "spec_finalPrice STANDARD v
     = round2 (basePrice v * (1 - discountRate v) * spec_regionMultiplier (region v)
       * spec_premiumMultiplier (premium_48h v))"
    by (simp add: spec_finalPrice_def spec_tierDiscountRate_def discountRate_spec
        basePrice_def spec_unitRate_def)
  show a: "spec_finalPrice STANDARD v
     = basePrice v * (1 - discountRate v) * spec_regionMultiplier (region v)
       * spec_premiumMultiplier (premium_48h v)"
    unfolding e by (rule round2_exact[OF scaled_price_is_integer])
  show "spec_finalPrice LOW v = spec_finalPrice STANDARD v"
    by (simp add: spec_finalPrice_def spec_tierDiscountRate_def)
  show "spec_finalPrice STANDARD v * 100 \<in> \<int>"
    unfolding a by (rule scaled_price_is_integer)
qed

text \<open>
  C1, as stated: for every input the estimate is the full cascade, with the VIP
  tier taking 5 percent off last, rounded to 2 decimals at the end. Three
  inputs show otherwise. For 100 employees in region Inne without premium the
  estimate is 9000, in double-precision and in exact arithmetic alike, where the
  cascade of the specification for a VIP offer gives 8550. For 258917689324
  employees in the second region of the table the estimate is
  24208803951794.01 (the double \<open>24208803951794 + 3/256\<close>) where the price is
  24208803951794. For 10.75 employees in the third region with premium the
  estimate is 1286.77 where the price 1286.775 rounds to 1286.78.
\<close>

theorem estimate_differs_from_specified_price:
  "calculateLocalEstimate_double (Finite 100) ''Inne'' False = Finite 9000
   \<and> calculateLocalEstimate
     \<lparr>company_id = Some 1, employees_count = 100, region = ''Inne'', premium_48h = False,
      ml_feature_avg_order_value = 20000, ml_feature_offers_count = 0\<rparr> = Num 9000
   \<and> spec_finalPrice VIP
     \<lparr>company_id = Some 1, employees_count = 100, region = ''Inne'', premium_48h = False,
      ml_feature_avg_order_value = 20000, ml_feature_offers_count = 0\<rparr> = 8550
   \<and> calculateLocalEstimate_double (Finite 258917689324) Slaskie False
       = Finite (24208803951794 + 3 / 256)
   \<and> spec_finalPrice STANDARD
     \<lparr>company_id = Some 1, employees_count = 258917689324, region = Slaskie, premium_48h = False,
      ml_feature_avg_order_value = 20000, ml_feature_offers_count = 0\<rparr> = 24208803951794
   \<and> calculateLocalEstimate_double (Finite (43 / 4)) Malopolskie True = Finite (2829637154546647 / 2 ^ 41)
   \<and> rd (128677 / 100) = Finite (2829637154546647 / 2 ^ 41)
   \<and> round2 (43 / 4 * 100 * (1 - 5 / 100) * (105 / 100) * (12 / 10)) = 128678 / 100"
proof -
  have a1: "d_times (Finite 100) (Finite 100) = Finite 10000"
    unfolding d_times.simps by (rule rd_eqI[where q = "13" and m = "5497558138880000"]; simp)
  have a2: "d_greater (Finite 100) (Finite 200) = False"
    by simp
  have a3: "d_greater (Finite 100) (Finite 50) = True"
    by simp
  have a4: "rd (10 / 100) = Finite (3602879701896397 / 2 ^ 55)"
    by (rule rd_eqI[where q = "- 4" and m = "7205759403792794"]; simp)
  have a5: "d_minus (Finite 1) (Finite (3602879701896397 / 2 ^ 55)) = Finite (8106479329266893 / 2 ^ 53)"
    unfolding d_minus_def d_uminus.simps d_plus.simps by (rule rd_eqI[where q = "- 1" and m = "8106479329266893"]; simp)
  have a6: "d_times (Finite 10000) (Finite (8106479329266893 / 2 ^ 53)) = Finite 9000"
    unfolding d_times.simps by (rule rd_eqI[where q = "13" and m = "4947802324992000"]; simp)
  have a7: "to_number (js_or (get_property regionMultipliers ''Inne'') (JsNumber (Num 1))) = Num (1 / 1)"
    by (simp add: get_property_def regionMultipliers_def js_or_def Slaskie_def Malopolskie_def)
  have a8: "rd (1 / 1) = Finite 1"
    using rd_of_int[of 1] by simp
  have a9: "d_times (Finite 9000) (Finite 1) = Finite 9000"
    unfolding d_times.simps by (rule rd_eqI[where q = "13" and m = "4947802324992000"]; simp)
  have a10: "d_times (Finite 9000) (Finite 100) = Finite 900000"
    unfolding d_times.simps by (rule rd_eqI[where q = "19" and m = "7730941132800000"]; simp)
  have a11: "d_round (Finite 900000) = Finite 900000"
    by simp
  have a12: "d_divide (Finite 900000) (Finite 100) = rd 9000"
    by simp
  have a0: "rd 9000 = Finite 9000" using rd_of_int[of 9000] by simp
  have apre: "price_before_rounding (Finite 100) ''Inne'' False = Finite 9000"
    unfolding price_before_rounding_def Let_def
    by (simp only: a1 a2 a3 a4 a5 a6 a7 a8 a9 a10 a11 a12 to_double.simps if_True if_False)
  have A: "calculateLocalEstimate_double (Finite 100) ''Inne'' False = Finite 9000"
    unfolding calculateLocalEstimate_double_def apre
    by (simp only: a1 a2 a3 a4 a5 a6 a7 a8 a9 a10 a11 a12 a0)
  have b1: "d_times (Finite 258917689324) (Finite 100) = Finite 25891768932400"
    unfolding d_times.simps by (rule rd_eqI[where q = "44" and m = "6628292846694400"]; simp)
  have b2: "d_greater (Finite 258917689324) (Finite 200) = True"
    by simp
  have b3: "rd (15 / 100) = Finite (5404319552844595 / 2 ^ 55)"
    by (rule rd_eqI[where q = "- 3" and m = "5404319552844595"]; simp)
  have b4: "d_minus (Finite 1) (Finite (5404319552844595 / 2 ^ 55)) = Finite (7656119366529843 / 2 ^ 53)"
    unfolding d_minus_def d_uminus.simps d_plus.simps by (rule rd_eqI[where q = "- 1" and m = "7656119366529843"]; simp)
  have b5: "d_times (Finite 25891768932400) (Finite (7656119366529843 / 2 ^ 53)) = Finite 22008003592540"
    unfolding d_times.simps by (rule rd_eqI[where q = "44" and m = "5634048919690240"]; simp)
  have b6: "to_number (js_or (get_property regionMultipliers Slaskie) (JsNumber (Num 1))) = Num (11 / 10)"
    by (simp add: get_property_def regionMultipliers_def js_or_def Slaskie_def Malopolskie_def)
  have b7: "rd (11 / 10) = Finite (2476979795053773 / 2 ^ 51)"
    by (rule rd_eqI[where q = "0" and m = "4953959590107546"]; simp)
  have b8: "d_times (Finite 22008003592540) (Finite (2476979795053773 / 2 ^ 51)) = Finite (6197453811659265 / 2 ^ 8)"
    unfolding d_times.simps by (rule rd_eqI[where q = "44" and m = "6197453811659265"]; simp)
  have b9: "d_times (Finite (6197453811659265 / 2 ^ 8)) (Finite 100) = Finite (4841760790358801 / 2 ^ 1)"
    unfolding d_times.simps by (rule rd_eqI[where q = "51" and m = "4841760790358801"]; simp)
  have b10: "d_round (Finite (4841760790358801 / 2 ^ 1)) = Finite 2420880395179401"
    by simp
  have b11: "d_divide (Finite 2420880395179401) (Finite 100) = rd (2420880395179401 / 100)"
    by simp
  have b0: "rd (2420880395179401 / 100) = Finite (24208803951794 + 3 / 256)"
    by (rule rd_eqI[where q = "44" and m = "6197453811659267"]; simp)
  have bpre: "price_before_rounding (Finite 258917689324) Slaskie False = Finite (6197453811659265 / 2 ^ 8)"
    unfolding price_before_rounding_def Let_def
    by (simp only: b1 b2 b3 b4 b5 b6 b7 b8 b9 b10 b11 to_double.simps if_True if_False)
  have B: "calculateLocalEstimate_double (Finite 258917689324) Slaskie False
       = Finite (24208803951794 + 3 / 256)"
    unfolding calculateLocalEstimate_double_def bpre
    by (simp only: b1 b2 b3 b4 b5 b6 b7 b8 b9 b10 b11 b0)
  have c1: "d_times (Finite (43 / 2 ^ 2)) (Finite 100) = Finite 1075"
    unfolding d_times.simps by (rule rd_eqI[where q = "10" and m = "4727899999436800"]; simp)
  have c2: "d_greater (Finite (43 / 2 ^ 2)) (Finite 200) = False"
    by simp
  have c3: "d_greater (Finite (43 / 2 ^ 2)) (Finite 50) = False"
    by simp
  have c4: "d_greater (Finite (43 / 2 ^ 2)) (Finite 10) = True"
    by simp
  have c5: "rd (5 / 100) = Finite (3602879701896397 / 2 ^ 56)"
    by (rule rd_eqI[where q = "- 5" and m = "7205759403792794"]; simp)
  have c6: "d_minus (Finite 1) (Finite (3602879701896397 / 2 ^ 56)) = Finite (4278419646001971 / 2 ^ 52)"
    unfolding d_minus_def d_uminus.simps d_plus.simps by (rule rd_eqI[where q = "- 1" and m = "8556839292003942"]; simp)
  have c7: "d_times (Finite 1075) (Finite (4278419646001971 / 2 ^ 52)) = Finite (4085 / 2 ^ 2)"
    unfolding d_times.simps by (rule rd_eqI[where q = "9" and m = "8983009998929920"]; simp)
  have c8: "to_number (js_or (get_property regionMultipliers Malopolskie) (JsNumber (Num 1))) = Num (105 / 100)"
    by (simp add: get_property_def regionMultipliers_def js_or_def Slaskie_def Malopolskie_def)
  have c9: "rd (105 / 100) = Finite (4728779608739021 / 2 ^ 52)"
    by (rule rd_eqI[where q = "0" and m = "4728779608739021"]; simp)
  have c10: "d_times (Finite (4085 / 2 ^ 2)) (Finite (4728779608739021 / 2 ^ 52)) = Finite (17157 / 2 ^ 4)"
    unfolding d_times.simps by (rule rd_eqI[where q = "10" and m = "4716080249438208"]; simp)
  have c11: "rd (120 / 100) = Finite (5404319552844595 / 2 ^ 52)"
    by (rule rd_eqI[where q = "0" and m = "5404319552844595"]; simp)
  have c12: "d_times (Finite (17157 / 2 ^ 4)) (Finite (5404319552844595 / 2 ^ 52)) = Finite (5659296299325849 / 2 ^ 42)"
    unfolding d_times.simps by (rule rd_eqI[where q = "10" and m = "5659296299325849"]; simp)
  have c13: "d_times (Finite (5659296299325849 / 2 ^ 42)) (Finite 100) = Finite (8842650467696639 / 2 ^ 36)"
    unfolding d_times.simps by (rule rd_eqI[where q = "16" and m = "8842650467696639"]; simp)
  have c14: "d_round (Finite (8842650467696639 / 2 ^ 36)) = Finite 128677"
    by simp
  have c15: "d_divide (Finite 128677) (Finite 100) = rd (128677 / 100)"
    by simp
  have c0: "rd (128677 / 100) = Finite (2829637154546647 / 2 ^ 41)"
    by (rule rd_eqI[where q = "10" and m = "5659274309093294"]; simp)
  have cpre: "price_before_rounding (Finite (43 / 2 ^ 2)) Malopolskie True = Finite (5659296299325849 / 2 ^ 42)"
    unfolding price_before_rounding_def Let_def
    by (simp only: c1 c2 c3 c4 c5 c6 c7 c8 c9 c10 c11 c12 c13 c14 c15 to_double.simps if_True if_False)
  have "calculateLocalEstimate_double (Finite (43 / 2 ^ 2)) Malopolskie True = Finite (2829637154546647 / 2 ^ 41)"
    unfolding calculateLocalEstimate_double_def cpre
    by (simp only: c1 c2 c3 c4 c5 c6 c7 c8 c9 c10 c11 c12 c13 c14 c15 c0)
  then have C: "calculateLocalEstimate_double (Finite (43 / 4)) Malopolskie True = Finite (2829637154546647 / 2 ^ 41)"
    by simp
  have D: "calculateLocalEstimate
     \<lparr>company_id = Some 1, employees_count = 100, region = ''Inne'', premium_48h = False,
      ml_feature_avg_order_value = 20000, ml_feature_offers_count = 0\<rparr> = Num 9000"
    by (simp add: estimate_defs)
  have E: "spec_finalPrice VIP
     \<lparr>company_id = Some 1, employees_count = 100, region = ''Inne'', premium_48h = False,
      ml_feature_avg_order_value = 20000, ml_feature_offers_count = 0\<rparr> = 8550"
    by (simp add: spec_price_defs)
  have F: "spec_finalPrice STANDARD
     \<lparr>company_id = Some 1, employees_count = 258917689324, region = Slaskie, premium_48h = False,
      ml_feature_avg_order_value = 20000, ml_feature_offers_count = 0\<rparr> = 24208803951794"
    by (simp add: spec_price_defs)
  have G: "round2 (43 / 4 * 100 * (1 - 5 / 100) * (105 / 100) * (12 / 10)) = 128678 / 100"
    by (simp add: round2_def)
  show ?thesis using A B C D E F G c0 by (intro conjI)
qed

text \<open>
  C1, amended: \<^verbatim>\<open>calculateLocalEstimate\<close> takes no tier and applies no tier
  discount. In double-precision arithmetic, for every integer employee count
  from 0 to \<open>10^9\<close>, every premium flag and every region string that names no
  inherited object property, it returns the double nearest to base price times
  (1 - volume discount) times region multiplier times premium multiplier, the
  factors applied in this order. That price is a whole number of cents, it is
  the final price of the specification for a LOW or STANDARD offer, and it is
  what the exact reading \<open>calculateLocalEstimate\<close> of the function gives. The
  intermediate products carry rounding error, which the one rounding to 2
  decimals at the very end removes.
\<close>

theorem estimate_double_is_untiered_price:
  assumes "0 \<le> employees_count v" and "employees_count v \<le> 10 ^ 9"
    and "region v \<notin> set Object_prototype_keys"
  shows "calculateLocalEstimate_double (Finite (of_int (employees_count v))) (region v)
           (premium_48h v) = rd (spec_finalPrice STANDARD v)
       \<and> spec_finalPrice STANDARD v
           = basePrice v * (1 - discountRate v) * spec_regionMultiplier (region v)
             * spec_premiumMultiplier (premium_48h v)
       \<and> spec_finalPrice LOW v = spec_finalPrice STANDARD v
       \<and> spec_finalPrice STANDARD v * 100 \<in> \<int>
       \<and> calculateLocalEstimate v = Num (spec_finalPrice STANDARD v)"
  using estimate_double_nearest[OF assms] spec_finalPrice_untiered[of v]
    estimate_exact[OF assms(3)]
  by simp

text \<open>
  At 120 employees, second region of the table, with premium: the price before
  the final rounding is \<open>14256 + 2^-39\<close>, which prints as 14256.000000000002, and
  the estimate is 14256.
\<close>

theorem estimate_double_is_untiered_price_witness:
  "0 \<le> employees_count
     \<lparr>company_id = Some 1, employees_count = 120, region = Slaskie, premium_48h = True,
      ml_feature_avg_order_value = 20000, ml_feature_offers_count = 0\<rparr>
   \<and> employees_count
     \<lparr>company_id = Some 1, employees_count = 120, region = Slaskie, premium_48h = True,
      ml_feature_avg_order_value = 20000, ml_feature_offers_count = 0\<rparr> \<le> 10 ^ 9
   \<and> region
     \<lparr>company_id = Some 1, employees_count = 120, region = Slaskie, premium_48h = True,
      ml_feature_avg_order_value = 20000, ml_feature_offers_count = 0\<rparr> \<notin> set Object_prototype_keys
   \<and> calculateLocalEstimate_double (Finite 120) Slaskie True = Finite 14256
   \<and> price_before_rounding (Finite 120) Slaskie True = Finite (14256 + 1 / 2 ^ 39)"
proof -
  let ?v = "\<lparr>company_id = Some 1, employees_count = 120, region = Slaskie, premium_48h = True,
      ml_feature_avg_order_value = 20000, ml_feature_offers_count = 0\<rparr>"
  have h: "0 \<le> employees_count ?v" "employees_count ?v \<le> 10 ^ 9"
    "region ?v \<notin> set Object_prototype_keys"
    by (simp_all add: Object_prototype_keys_def Slaskie_def)
  have "calculateLocalEstimate_double (Finite (of_int (employees_count ?v))) (region ?v)
           (premium_48h ?v) = rd (spec_finalPrice STANDARD ?v)"
    using estimate_double_is_untiered_price[OF h] by (elim conjE)
  moreover have "spec_finalPrice STANDARD ?v = 14256"
    by (simp add: spec_price_defs)
  moreover have "rd 14256 = Finite 14256" using rd_of_int[of 14256] by simp
  ultimately have res: "calculateLocalEstimate_double (Finite 120) Slaskie True = Finite 14256"
    by simp
  have w1: "d_times (Finite 120) (Finite 100) = Finite 12000"
    unfolding d_times.simps by (rule rd_eqI[where q = "13" and m = "6597069766656000"]; simp)
  have w2: "d_greater (Finite 120) (Finite 200) = False"
    by simp
  have w3: "d_greater (Finite 120) (Finite 50) = True"
    by simp
  have w4: "rd (10 / 100) = Finite (3602879701896397 / 2 ^ 55)"
    by (rule rd_eqI[where q = "- 4" and m = "7205759403792794"]; simp)
  have w5: "d_minus (Finite 1) (Finite (3602879701896397 / 2 ^ 55)) = Finite (8106479329266893 / 2 ^ 53)"
    unfolding d_minus_def d_uminus.simps d_plus.simps by (rule rd_eqI[where q = "- 1" and m = "8106479329266893"]; simp)
  have w6: "d_times (Finite 12000) (Finite (8106479329266893 / 2 ^ 53)) = Finite 10800"
    unfolding d_times.simps by (rule rd_eqI[where q = "13" and m = "5937362789990400"]; simp)
  have w7: "to_number (js_or (get_property regionMultipliers Slaskie) (JsNumber (Num 1))) = Num (11 / 10)"
    by (simp add: get_property_def regionMultipliers_def js_or_def Slaskie_def Malopolskie_def)
  have w8: "rd (11 / 10) = Finite (2476979795053773 / 2 ^ 51)"
    by (rule rd_eqI[where q = "0" and m = "4953959590107546"]; simp)
  have w9: "d_times (Finite 10800) (Finite (2476979795053773 / 2 ^ 51)) = Finite (6531099068989441 / 2 ^ 39)"
    unfolding d_times.simps by (rule rd_eqI[where q = "13" and m = "6531099068989441"]; simp)
  have w10: "rd (120 / 100) = Finite (5404319552844595 / 2 ^ 52)"
    by (rule rd_eqI[where q = "0" and m = "5404319552844595"]; simp)
  have w11: "d_times (Finite (6531099068989441 / 2 ^ 39)) (Finite (5404319552844595 / 2 ^ 52)) = Finite (7837318882787329 / 2 ^ 39)"
    unfolding d_times.simps by (rule rd_eqI[where q = "13" and m = "7837318882787329"]; simp)
  have w12: "d_times (Finite (7837318882787329 / 2 ^ 39)) (Finite 100) = Finite (6122905377177601 / 2 ^ 32)"
    unfolding d_times.simps by (rule rd_eqI[where q = "20" and m = "6122905377177601"]; simp)
  have w13: "d_round (Finite (6122905377177601 / 2 ^ 32)) = Finite 1425600"
    by simp
  have w14: "d_divide (Finite 1425600) (Finite 100) = rd 14256"
    by simp
  have pre: "price_before_rounding (Finite 120) Slaskie True = Finite (14256 + 1 / 2 ^ 39)"
  proof -
    have "price_before_rounding (Finite 120) Slaskie True = Finite (7837318882787329 / 2 ^ 39)"
      unfolding price_before_rounding_def Let_def
      by (simp only: w1 w2 w3 w4 w5 w6 w7 w8 w9 w10 w11 w12 w13 w14 to_double.simps if_True if_False)
    then show ?thesis by simp
  qed
  show ?thesis using h res pre by (intro conjI)
qed

section \<open>The price estimate: further properties\<close>



text \<open>
  C4, at its failing input: with the region held at the string
  \<open>constructor\<close> and no premium, the estimates for 9 and for 11 employees are
  both \<^verbatim>\<open>NaN\<close>, and so are the prices per employee; the second is not less than
  the first. (On every region string that names no inherited property the
  price per employee does drop: lemma \<open>unit_price_drops\<close>.)
\<close>

theorem unit_price_on_inherited_region:
  "per_employee_price \<lparr>company_id = Some 1, employees_count = 9, region = ''constructor'',
      premium_48h = False, ml_feature_avg_order_value = 0, ml_feature_offers_count = 0\<rparr> = NaN
   \<and> per_employee_price \<lparr>company_id = Some 1, employees_count = 11, region = ''constructor'',
      premium_48h = False, ml_feature_avg_order_value = 0, ml_feature_offers_count = 0\<rparr> = NaN
   \<and> \<not> number_less
        (per_employee_price \<lparr>company_id = Some 1, employees_count = 11,
           region = ''constructor'', premium_48h = False, ml_feature_avg_order_value = 0,
           ml_feature_offers_count = 0\<rparr>)
        (per_employee_price \<lparr>company_id = Some 1, employees_count = 9,
           region = ''constructor'', premium_48h = False, ml_feature_avg_order_value = 0,
           ml_feature_offers_count = 0\<rparr>)"
  by (simp add: per_employee_price_def estimate_defs)

text \<open>
  C5, at its failing input: the region string \<open>constructor\<close> is outside the
  table, yet the fallback 1.0 is not used. The lookup finds the inherited
  property, which is truthy, and the estimate for 100 employees is \<^verbatim>\<open>NaN\<close>
  where the fallback multiplier gives 9000.
\<close>

theorem region_fallback_misses_inherited_key:
  "map_of regionMultipliers ''constructor'' = None
   \<and> get_property regionMultipliers ''constructor'' = JsObject
   \<and> calculateLocalEstimate \<lparr>company_id = Some 1, employees_count = 100,
        region = ''constructor'', premium_48h = False, ml_feature_avg_order_value = 0,
        ml_feature_offers_count = 0\<rparr> = NaN
   \<and> spec_regionMultiplier ''constructor'' = 1
   \<and> spec_finalPrice STANDARD \<lparr>company_id = Some 1, employees_count = 100,
        region = ''constructor'', premium_48h = False, ml_feature_avg_order_value = 0,
        ml_feature_offers_count = 0\<rparr> = 9000"
  by (simp add: estimate_defs spec_price_defs)



text \<open>
  With \<^verbatim>\<open>Object.prototype\<close> as the language defines it the method is the function
  \<open>calculateLocalEstimate\<close> of its argument, and it leaves the component as it
  is. In general its result is a function of the three attributes and of what
  \<^verbatim>\<open>Object.prototype\<close> holds under the region name.
\<close>

lemma estimate_on_pristine_prototype:
  "calculateLocalEstimate_in pristine_prototype this values
     = (calculateLocalEstimate values, this)"
  by (simp add: calculateLocalEstimate_in_def calculateLocalEstimate_def get_property_in_def
      get_property_def pristine_prototype_def Let_def split: option.split)

lemma estimate_reads_attributes_and_prototype:
  assumes "employees_count v = employees_count w" and "region v = region w"
    and "premium_48h v = premium_48h w" and "proto (region v) = proto' (region w)"
  shows "fst (calculateLocalEstimate_in proto this v)
           = fst (calculateLocalEstimate_in proto' that w)"
    and "snd (calculateLocalEstimate_in proto this v) = this"
proof -
  have "get_property_in proto regionMultipliers (region v)
          = get_property_in proto' regionMultipliers (region w)"
    using assms(2,4) by (simp add: get_property_in_def split: option.split)
  then show "fst (calculateLocalEstimate_in proto this v)
           = fst (calculateLocalEstimate_in proto' that w)"
    using assms(1,3)
    by (simp add: calculateLocalEstimate_in_def basePrice_def discountRate_def Let_def)
  show "snd (calculateLocalEstimate_in proto this v) = this"
    by (simp add: calculateLocalEstimate_in_def Let_def)
qed


section \<open>Score classes\<close>

text \<open>
  Off the two boundary scores the style class and the colour are those of the
  score's tier.
\<close>

lemma score_class_off_boundary:
  assumes "s \<noteq> 40" and "s \<noteq> 70"
  shows "getScoreClass (Num s) = spec_scoreClass (spec_priorityTier s)
       \<and> getScoreColor (Num s) = spec_scoreColor (spec_priorityTier s)"
  using assms
  by (simp add: getScoreClass_def getScoreColor_def spec_scoreClass_def spec_scoreColor_def
      spec_priorityTier_def)

text \<open>
  C2, at its failing inputs: a score of exactly 70 belongs to STANDARD and a
  score of exactly 40 to LOW, but \<^verbatim>\<open>getScoreClass\<close> and \<^verbatim>\<open>getScoreColor\<close> compare
  with \<^verbatim>\<open>>=\<close> and put 70 in the high band and 40 in the medium band.
\<close>

theorem score_class_at_boundaries:
  "getScoreClass (Num 70) = ''score-high''
   \<and> spec_scoreClass (spec_priorityTier 70) = ''score-medium''
   \<and> getScoreColor (Num 70) = ''#4caf50''
   \<and> spec_scoreColor (spec_priorityTier 70) = ''#ff9800''
   \<and> getScoreClass (Num 40) = ''score-medium''
   \<and> spec_scoreClass (spec_priorityTier 40) = ''score-low''
   \<and> getScoreColor (Num 40) = ''#ff9800''
   \<and> spec_scoreColor (spec_priorityTier 40) = ''#f44336''"
  by (simp add: getScoreClass_def getScoreColor_def spec_scoreClass_def spec_scoreColor_def
      spec_priorityTier_def)

section \<open>Submitting an invalid form\<close>

lemma markAsTouched_idem: "markAsTouched (markAsTouched ctl) = markAsTouched ctl"
  by (simp add: markAsTouched_def)

lemma map_of_touch_keys:
  "map_of (foldl (\<lambda>cs key. AList.map_entry key markAsTouched cs) cs ks) k
   = (if k \<in> set ks then map_option markAsTouched (map_of cs k) else map_of cs k)"
proof (induction ks arbitrary: cs)
  case Nil
  then show ?case by simp
next
  case (Cons key ks)
  show ?case
    by (cases "map_of cs k")
       (auto simp: Cons.IH map_of_map_entry markAsTouched_idem)
qed

lemma values_map_entry:
  "map (\<lambda>(key, ctl). (key, ctl_value ctl)) (AList.map_entry k markAsTouched cs)
   = map (\<lambda>(key, ctl). (key, ctl_value ctl)) cs"
  by (induction cs) (auto simp: markAsTouched_def)

lemma values_touch_keys:
  "map (\<lambda>(key, ctl). (key, ctl_value ctl))
     (foldl (\<lambda>cs key. AList.map_entry key markAsTouched cs) cs ks)
   = map (\<lambda>(key, ctl). (key, ctl_value ctl)) cs"
  by (induction ks arbitrary: cs) (simp_all add: values_map_entry)

lemma get_markAllAsTouched:
  "get (markAllAsTouched form) key = map_option markAsTouched (get form key)"
proof (cases "map_of (controls form) key")
  case None
  then have "key \<notin> set (map fst (controls form))"
    by (simp add: map_of_eq_None_iff)
  then show ?thesis using None
    by (simp add: get_def markAllAsTouched_def map_of_touch_keys)
next
  case (Some ctl)
  then have "key \<in> set (map fst (controls form))"
    by (metis map_of_eq_None_iff option.distinct(1) set_map)
  then show ?thesis
    by (simp add: get_def markAllAsTouched_def map_of_touch_keys)
qed

text \<open>
  C8: when the form is invalid, \<^verbatim>\<open>calculate\<close> emits nothing on the calculation
  stream and leaves \<^verbatim>\<open>result\<close> (and \<^verbatim>\<open>loading\<close>) as they are; the form keeps its
  status and its value, and every control is the old one marked as touched.
\<close>

theorem calculate_on_invalid_form:
  assumes "invalid (pricingForm c)"
  shows "calculateSubject (calculate c) = calculateSubject c
       \<and> result (calculate c) = result c
       \<and> loading (calculate c) = loading c
       \<and> status (pricingForm (calculate c)) = status (pricingForm c)
       \<and> form_value (pricingForm (calculate c)) = form_value (pricingForm c)
       \<and> (\<forall>key. get (pricingForm (calculate c)) key
                 = map_option markAsTouched (get (pricingForm c) key))"
  using assms
  by (simp add: calculate_def get_markAllAsTouched)
     (simp add: markAllAsTouched_def form_value_def values_touch_keys)

theorem calculate_on_invalid_form_witness:
  "invalid (pricingForm
     \<lparr>pricingForm =
        \<lparr>controls = [(''company_id'', \<lparr>ctl_value = CNull, touched = False\<rparr>),
                      (''employees_count'', \<lparr>ctl_value = CNumber 100, touched = False\<rparr>)],
         status = INVALID\<rparr>,
      result = None, loading = False, calculateSubject = []\<rparr>)
   \<and> calculateSubject (calculate
     \<lparr>pricingForm =
        \<lparr>controls = [(''company_id'', \<lparr>ctl_value = CNull, touched = False\<rparr>),
                      (''employees_count'', \<lparr>ctl_value = CNumber 100, touched = False\<rparr>)],
         status = INVALID\<rparr>,
      result = None, loading = False, calculateSubject = []\<rparr>) = []
   \<and> get (pricingForm (calculate
     \<lparr>pricingForm =
        \<lparr>controls = [(''company_id'', \<lparr>ctl_value = CNull, touched = False\<rparr>),
                      (''employees_count'', \<lparr>ctl_value = CNumber 100, touched = False\<rparr>)],
         status = INVALID\<rparr>,
      result = None, loading = False, calculateSubject = []\<rparr>)) ''company_id''
     = Some \<lparr>ctl_value = CNull, touched = True\<rparr>"
proof -
  let ?c = "\<lparr>pricingForm =
        \<lparr>controls = [(''company_id'', \<lparr>ctl_value = CNull, touched = False\<rparr>),
                      (''employees_count'', \<lparr>ctl_value = CNumber 100, touched = False\<rparr>)],
         status = INVALID\<rparr>,
      result = None, loading = False, calculateSubject = []\<rparr>"
  have h: "invalid (pricingForm ?c)" by (simp add: invalid_def)
  have "calculateSubject (calculate ?c) = calculateSubject ?c"
    and "\<forall>key. get (pricingForm (calculate ?c)) key
                 = map_option markAsTouched (get (pricingForm ?c) key)"
    using calculate_on_invalid_form[OF h] by blast+
  then show ?thesis using h by (simp add: get_def markAsTouched_def)
qed

section \<open>Offer statistics\<close>

lemma calculateStats_nonempty:
  assumes "offers \<noteq> []"
  shows "avgAiScore (calculateStats c offers)
     = d_round (d_divide (foldl (\<lambda>sum offer. d_plus sum (ai_score offer)) (Finite 0) offers)
                         (Finite (of_nat (length offers))))"
  using assms by (simp add: calculateStats_def)

text \<open>
  Rounding below the normal range, and a bound on the error of one rounding
  that holds from zero up to \<open>2^60\<close>.
\<close>

lemma rd_subnormal:
  assumes "x \<noteq> 0" and "\<bar>x\<bar> < 2 powi (- 1022)"
  obtains r where "rd x = Finite r" and "\<bar>r - x\<bar> \<le> 2 powi (- 1075)"
proof -
  have x: "0 < \<bar>x\<bar>" using assms(1) by simp
  note b = ilog2_bounds[OF x]
  have "(2::real) powi (ilog2 \<bar>x\<bar>) < 2 powi (- 1022)" using b(1) assms(2) by linarith
  then have "ilog2 \<bar>x\<bar> < - 1022" by (rule powi2_less_D)
  define e :: int where "e = - 1074"
  have e: "max (ilog2 \<bar>x\<bar> - 52) (- 1074) = e"
    using \<open>ilog2 \<bar>x\<bar> < - 1022\<close> by (simp add: e_def)
  define m where "m = round_even (x / 2 powi e)"
  define t :: real where "t = of_int m * 2 powi e"
  define c :: real where "c = 2 powi (- 1075)"
  define d :: real where "d = 2 powi (- 1022)"
  have pe: "(0::real) < 2 powi e" by simp
  have "\<bar>of_int m - x / 2 powi e\<bar> \<le> 1 / 2" unfolding m_def by (rule round_even_err)
  then have "\<bar>of_int m - x / 2 powi e\<bar> * 2 powi e \<le> 1 / 2 * 2 powi e"
    using pe by (intro mult_right_mono) simp_all
  moreover have "\<bar>of_int m - x / 2 powi e\<bar> * 2 powi e = \<bar>t - x\<bar>"
  proof -
    have "\<bar>of_int m - x / 2 powi e\<bar> * 2 powi e = \<bar>(of_int m - x / 2 powi e) * 2 powi e\<bar>"
      using pe by (simp add: abs_mult)
    also have "(of_int m - x / 2 powi e) * 2 powi e = of_int m * 2 powi e - x"
      using pe by (simp add: field_simps)
    finally show ?thesis by (simp only: t_def)
  qed
  moreover have "1 / 2 * (2::real) powi e = c"
  proof -
    have "c = 2 powi (e + (- 1))" by (simp add: e_def c_def)
    also have "\<dots> = 2 powi e * 2 powi (- 1)" by (subst power_int_add) simp_all
    finally show ?thesis by simp
  qed
  ultimately have err: "\<bar>t - x\<bar> \<le> c" by simp
  have "c \<le> 2 powi 0" unfolding c_def by (rule power_int_increasing) simp_all
  then have c1: "c \<le> 1" by simp
  have "d \<le> 2 powi 0" unfolding d_def by (rule power_int_increasing) simp_all
  then have d1: "d \<le> 1" by simp
  have "\<bar>x\<bar> < d" using assms(2) unfolding d_def .
  then have "\<bar>t\<bar> < 2" using err c1 d1 by linarith
  moreover have "(2::real) ^ 1 \<le> 2 ^ 1024" by (rule power_increasing) simp_all
  ultimately have "\<not> (2::real) ^ 1024 \<le> \<bar>t\<bar>" by simp
  then have "\<not> (2::real) ^ 1024 \<le> \<bar>of_int m * 2 powi e\<bar>" unfolding t_def .
  then have "rd x = Finite t"
    using assms(1) by (simp add: rd_def e Let_def m_def[symmetric] t_def)
  then show ?thesis using err that unfolding c_def by blast
qed

lemma rd_abs:
  assumes "\<bar>x\<bar> \<le> 2 ^ 60"
  obtains r where "rd x = Finite r" and "\<bar>r - x\<bar> \<le> ulp_unit * \<bar>x\<bar> + 2 powi (- 1075)"
proof (cases "x = 0")
  case True
  then have "rd x = Finite 0" by (simp add: rd_def)
  then show ?thesis using True that[of 0] by simp
next
  case False
  show ?thesis
  proof (cases "\<bar>x\<bar> < 2 powi (- 1022)")
    case True
    obtain r where r: "rd x = Finite r" "\<bar>r - x\<bar> \<le> 2 powi (- 1075)"
      using rd_subnormal[OF False True] by blast
    have "0 \<le> ulp_unit * \<bar>x\<bar>" using ulp_unit_pos by simp
    then show ?thesis using r that[of r] by linarith
  next
    case False
    have "(2::real) ^ 60 < 2 powi 1023"
    proof -
      have "(2::real) powi 60 < 2 powi 1023" by (rule power_int_strict_increasing) simp_all
      then show ?thesis by simp
    qed
    then have "\<bar>x\<bar> < 2 powi 1023" using assms by linarith
    moreover have "2 powi (- 1022) \<le> \<bar>x\<bar>" using False by simp
    ultimately obtain r where r: "rd x = Finite r" "\<bar>r - x\<bar> \<le> ulp_unit * \<bar>x\<bar>"
      using rd_rel[of x] by blast
    have "(0::real) \<le> 2 powi (- 1075)" by simp
    then show ?thesis using r that[of r] by linarith
  qed
qed

text \<open>
  The sum of scores between 0 and 100, added from left to right in doubles,
  against their exact sum; then the quotient against the exact mean.
\<close>

lemma ulp_unit_eq: "ulp_unit = 1 / 2 ^ 53"
  by (simp add: ulp_unit_def power_int_minus_divide)

lemma tiny_le_ulp_unit: "2 powi (- 1075) \<le> ulp_unit"
  unfolding ulp_unit_def by (rule power_int_increasing) simp_all

lemma rd_not_nan: "rd x \<noteq> DNaN"
  by (simp add: rd_def Let_def)

lemma sum_step:
  assumes "\<bar>a - A\<bar> \<le> E" and "0 \<le> A" and "0 \<le> x" and "A + x \<le> B" and "0 \<le> E" and "E \<le> 1"
    and "B \<le> 2 ^ 59"
  obtains s where "d_plus (Finite a) (Finite x) = Finite s"
    and "\<bar>s - (A + x)\<bar> \<le> E + (ulp_unit * (B + 1) + 2 powi (- 1075))"
proof -
  have ax: "\<bar>a + x\<bar> \<le> B + 1" using assms(1-6) by linarith
  have "B + 1 \<le> 2 ^ 60" using assms(7) by simp
  then have "\<bar>a + x\<bar> \<le> 2 ^ 60" using ax by linarith
  then obtain r where r: "rd (a + x) = Finite r"
    "\<bar>r - (a + x)\<bar> \<le> ulp_unit * \<bar>a + x\<bar> + 2 powi (- 1075)"
    using rd_abs[of "a + x"] by blast
  have "ulp_unit * \<bar>a + x\<bar> \<le> ulp_unit * (B + 1)"
    using ax ulp_unit_pos by (intro mult_left_mono) simp_all
  then have "\<bar>r - (A + x)\<bar> \<le> E + (ulp_unit * (B + 1) + 2 powi (- 1075))"
    using r(2) assms(1) by linarith
  then show ?thesis using r(1) that[of r] by simp
qed

lemma sum_list_values_nonneg:
  assumes "\<forall>d\<in>set ds. is_finite d \<and> 0 \<le> real_of_double d"
  shows "0 \<le> sum_list (map real_of_double ds)"
  using assms by (induction ds) simp_all

lemma foldl_sum_error:
  assumes "\<forall>d\<in>set ds. is_finite d \<and> 0 \<le> real_of_double d"
    and "\<bar>a - A\<bar> \<le> E" and "0 \<le> A" and "A + sum_list (map real_of_double ds) \<le> B"
    and "0 \<le> E" and "E + of_nat (length ds) * c \<le> 1" and "B \<le> 2 ^ 59"
    and "c = ulp_unit * (B + 1) + 2 powi (- 1075)"
  shows "\<exists>s. foldl d_plus (Finite a) ds = Finite s
           \<and> \<bar>s - (A + sum_list (map real_of_double ds))\<bar> \<le> E + of_nat (length ds) * c"
  using assms
proof (induction ds arbitrary: a A E)
  case Nil
  then show ?case by simp
next
  case (Cons d ds)
  have B0: "0 \<le> B"
    using Cons.prems(3,4) sum_list_values_nonneg[OF Cons.prems(1)] by linarith
  have c0: "0 \<le> c"
  proof -
    have "0 \<le> ulp_unit * (B + 1)" using ulp_unit_pos B0 by simp
    moreover have "(0::real) \<le> 2 powi (- 1075)" by simp
    ultimately show ?thesis unfolding Cons.prems(8) by linarith
  qed
  obtain x where d: "d = Finite x" using Cons.prems(1) by (cases d) simp_all
  have x0: "0 \<le> x" using Cons.prems(1) d by simp
  have rest: "\<forall>d\<in>set ds. is_finite d \<and> 0 \<le> real_of_double d" using Cons.prems(1) by simp
  have r0: "0 \<le> sum_list (map real_of_double ds)" using rest by (rule sum_list_values_nonneg)
  have AxB: "A + x \<le> B" using Cons.prems(4) r0 d by simp
  have lc: "0 \<le> of_nat (length ds) * c" using c0 by simp
  have split: "E + of_nat (length (d # ds)) * c = (E + c) + of_nat (length ds) * c"
    by (simp add: algebra_simps)
  have E1: "E \<le> 1" using Cons.prems(6) lc c0 unfolding split by linarith
  obtain s1 where s1: "d_plus (Finite a) (Finite x) = Finite s1"
    "\<bar>s1 - (A + x)\<bar> \<le> E + (ulp_unit * (B + 1) + 2 powi (- 1075))"
    using sum_step[OF Cons.prems(2,3) x0 AxB Cons.prems(5) E1 Cons.prems(7)] by blast
  have e1: "\<bar>s1 - (A + x)\<bar> \<le> E + c" using s1(2) unfolding Cons.prems(8) .
  have "\<exists>s. foldl d_plus (Finite s1) ds = Finite s
           \<and> \<bar>s - ((A + x) + sum_list (map real_of_double ds))\<bar>
               \<le> (E + c) + of_nat (length ds) * c"
  proof (rule Cons.IH[OF rest e1])
    show "0 \<le> A + x" using Cons.prems(3) x0 by simp
    show "A + x + sum_list (map real_of_double ds) \<le> B" using Cons.prems(4) d by simp
    show "0 \<le> E + c" using Cons.prems(5) c0 by simp
    show "E + c + of_nat (length ds) * c \<le> 1" using Cons.prems(6) unfolding split .
    show "B \<le> 2 ^ 59" by (rule Cons.prems(7))
    show "c = ulp_unit * (B + 1) + 2 powi (- 1075)" by (rule Cons.prems(8))
  qed
  then show ?case unfolding split using s1(1) d by (simp add: add.assoc)
qed

lemma foldl_not_nan:
  assumes "\<forall>d\<in>set ds. is_finite d" and "a \<noteq> DNaN"
  shows "foldl d_plus a ds \<noteq> DNaN"
  using assms
proof (induction ds arbitrary: a)
  case Nil
  then show ?case by simp
next
  case (Cons d ds)
  obtain x where d: "d = Finite x" using Cons.prems(1) by (cases d) simp_all
  have "d_plus a d \<noteq> DNaN" using Cons.prems(2) d by (cases a) (simp_all add: rd_not_nan)
  then show ?case using Cons.IH[of "d_plus a d"] Cons.prems(1) by simp
qed

lemma round_near:
  fixes q M d :: real
  assumes "\<bar>q - M\<bar> \<le> d"
  shows "\<bar>of_int \<lfloor>q + 1 / 2\<rfloor> - M\<bar> \<le> 1 / 2 + d"
    and "d < \<bar>M - of_int \<lfloor>M\<rfloor> - 1 / 2\<bar> \<Longrightarrow> \<lfloor>q + 1 / 2\<rfloor> = \<lfloor>M + 1 / 2\<rfloor>"
proof -
  show "\<bar>of_int \<lfloor>q + 1 / 2\<rfloor> - M\<bar> \<le> 1 / 2 + d" using assms by linarith
  assume sep: "d < \<bar>M - of_int \<lfloor>M\<rfloor> - 1 / 2\<bar>"
  show "\<lfloor>q + 1 / 2\<rfloor> = \<lfloor>M + 1 / 2\<rfloor>"
  proof (cases "M - of_int \<lfloor>M\<rfloor> < 1 / 2")
    case True
    then have "\<lfloor>M + 1 / 2\<rfloor> = \<lfloor>M\<rfloor>" by linarith
    moreover have "\<lfloor>q + 1 / 2\<rfloor> = \<lfloor>M\<rfloor>" using True sep assms by linarith
    ultimately show ?thesis by simp
  next
    case False
    then have "\<lfloor>M + 1 / 2\<rfloor> = \<lfloor>M\<rfloor> + 1" by linarith
    moreover have "\<lfloor>q + 1 / 2\<rfloor> = \<lfloor>M\<rfloor> + 1" using False sep assms by linarith
    ultimately show ?thesis by simp
  qed
qed

lemma sum_list_values_le:
  assumes "\<forall>d\<in>set ds. real_of_double d \<le> 100"
  shows "sum_list (map real_of_double ds) \<le> 100 * of_nat (length ds)"
  using assms by (induction ds) (simp_all add: algebra_simps)

lemma mean_error:
  assumes ne: "ds \<noteq> []" and len: "length ds \<le> 10 ^ 6"
    and range: "\<forall>d\<in>set ds. is_finite d \<and> 0 \<le> real_of_double d \<and> real_of_double d \<le> 100"
  shows "\<exists>q. d_divide (foldl d_plus (Finite 0) ds) (Finite (of_nat (length ds))) = Finite q
           \<and> \<bar>q - sum_list (map real_of_double ds) / of_nat (length ds)\<bar>
               \<le> 102 * (of_nat (length ds) + 1) * ulp_unit"
proof -
  define n :: real where "n = of_nat (length ds)"
  define S where "S = sum_list (map real_of_double ds)"
  define u where "u = ulp_unit"
  define B where "B = 100 * n"
  define c where "c = u * (B + 1) + 2 powi (- 1075)"
  have n1: "1 \<le> n" using ne unfolding n_def by (cases ds) simp_all
  have nmax: "n \<le> 10 ^ 6"
  proof -
    have "(of_nat (length ds) :: real) \<le> of_nat (10 ^ 6)" using len by (simp only: of_nat_le_iff)
    then show ?thesis by (simp add: n_def)
  qed
  have u0: "0 < u" using ulp_unit_pos by (simp add: u_def)
  have ueq: "u = 1 / 2 ^ 53" by (simp add: u_def ulp_unit_eq)
  have tiny: "2 powi (- 1075) \<le> u" using tiny_le_ulp_unit by (simp add: u_def)
  have tiny0: "(0::real) \<le> 2 powi (- 1075)" by simp
  have fin: "\<forall>d\<in>set ds. is_finite d \<and> 0 \<le> real_of_double d" using range by simp
  have S0: "0 \<le> S" unfolding S_def using fin by (rule sum_list_values_nonneg)
  have SB: "S \<le> B" unfolding S_def B_def n_def using range by (intro sum_list_values_le) simp
  have B59: "B \<le> 2 ^ 59" using nmax by (simp add: B_def)
  have c_le: "c \<le> u * (100 * n + 2)" using tiny by (simp add: c_def B_def algebra_simps)
  have c0: "0 \<le> c" using u0 n1 tiny0 by (simp add: c_def B_def)
  have nc: "n * c \<le> 1"
  proof -
    have "n * c \<le> n * (u * (100 * n + 2))" using c_le n1 by (intro mult_left_mono) simp_all
    also have "\<dots> = u * (n * (100 * n + 2))" by simp
    also have "n * (100 * n + 2) \<le> 10 ^ 6 * (100 * 10 ^ 6 + 2)"
      using nmax n1 by (intro mult_mono) simp_all
    then have "u * (n * (100 * n + 2)) \<le> u * (10 ^ 6 * (100 * 10 ^ 6 + 2))"
      using u0 by (intro mult_left_mono) simp_all
    also have "\<dots> \<le> 1" by (simp add: ueq)
    finally show ?thesis .
  qed
  have "\<exists>s. foldl d_plus (Finite 0) ds = Finite s
           \<and> \<bar>s - (0 + sum_list (map real_of_double ds))\<bar> \<le> 0 + of_nat (length ds) * c"
  proof (rule foldl_sum_error[OF fin])
    show "\<bar>(0::real) - 0\<bar> \<le> 0" by simp
    show "(0::real) \<le> 0" by simp
    show "0 + sum_list (map real_of_double ds) \<le> B" using SB by (simp add: S_def)
    show "(0::real) \<le> 0" by simp
    show "0 + of_nat (length ds) * c \<le> 1" using nc by (simp add: n_def)
    show "B \<le> 2 ^ 59" by (rule B59)
    show "c = ulp_unit * (B + 1) + 2 powi (- 1075)" by (simp add: c_def u_def)
  qed
  then obtain s where s: "foldl d_plus (Finite 0) ds = Finite s" "\<bar>s - S\<bar> \<le> n * c"
    by (auto simp: S_def n_def)
  have sn: "\<bar>s / n - S / n\<bar> \<le> c"
  proof -
    have "\<bar>s / n - S / n\<bar> = \<bar>s - S\<bar> / n" using n1 by (simp add: diff_divide_distrib[symmetric])
    also have "\<dots> \<le> n * c / n" using s(2) n1 by (intro divide_right_mono) simp_all
    also have "\<dots> = c" using n1 by simp
    finally show ?thesis .
  qed
  have Sn: "0 \<le> S / n" "S / n \<le> 100"
  proof -
    show "0 \<le> S / n" using S0 n1 by simp
    have "S / n \<le> B / n" using SB n1 by (intro divide_right_mono) simp_all
    then show "S / n \<le> 100" using n1 by (simp add: B_def)
  qed
  have c1: "c \<le> 1"
  proof -
    have "1 * c \<le> n * c" using n1 c0 by (intro mult_right_mono) simp_all
    then show ?thesis using nc by simp
  qed
  have q101: "\<bar>s / n\<bar> \<le> 101" using sn Sn c1 by linarith
  then have "\<bar>s / n\<bar> \<le> 2 ^ 60" by simp
  then obtain q where q: "rd (s / n) = Finite q"
    "\<bar>q - s / n\<bar> \<le> ulp_unit * \<bar>s / n\<bar> + 2 powi (- 1075)"
    using rd_abs[of "s / n"] by blast
  have "u * \<bar>s / n\<bar> \<le> u * 101" using q101 u0 by (intro mult_left_mono) simp_all
  then have "\<bar>q - s / n\<bar> \<le> 102 * u" using q(2) tiny by (simp add: u_def)
  then have "\<bar>q - S / n\<bar> \<le> 102 * u + u * (100 * n + 2)" using sn c_le by linarith
  also have "\<dots> \<le> 102 * (n + 1) * u"
  proof -
    have "102 * (n + 1) * u - (102 * u + u * (100 * n + 2)) = u * (2 * n - 2)"
      by (simp add: algebra_simps)
    moreover have "0 \<le> u * (2 * n - 2)" using u0 n1 by simp
    ultimately show ?thesis by linarith
  qed
  finally have err: "\<bar>q - S / n\<bar> \<le> 102 * (n + 1) * u" .
  have "d_divide (foldl d_plus (Finite 0) ds) (Finite (of_nat (length ds))) = Finite q"
    using s(1) q(1) ne by (simp add: n_def)
  then show ?thesis using err by (auto simp: S_def n_def u_def)
qed

lemma foldl_scores:
  "foldl (\<lambda>sum offer. d_plus sum (ai_score offer)) a offers = foldl d_plus a (map ai_score offers)"
  by (simp add: foldl_map)

lemma stats_not_nan:
  assumes "\<forall>offer\<in>set offers. is_finite (ai_score offer)"
  shows "avgAiScore (calculateStats c offers) \<noteq> DNaN"
proof (cases "offers = []")
  case True
  then show ?thesis by (simp add: calculateStats_def)
next
  case False
  have n: "(of_nat (length offers) :: real) \<noteq> 0" using False by simp
  have "foldl d_plus (Finite 0) (map ai_score offers) \<noteq> DNaN"
    using assms by (intro foldl_not_nan) simp_all
  then have "d_divide (foldl d_plus (Finite 0) (map ai_score offers))
                 (Finite (of_nat (length offers))) \<noteq> DNaN"
    using n by (cases "foldl d_plus (Finite 0) (map ai_score offers)") (simp_all add: rd_not_nan)
  then have "d_round (d_divide (foldl d_plus (Finite 0) (map ai_score offers))
                 (Finite (of_nat (length offers)))) \<noteq> DNaN"
    by (cases "d_divide (foldl d_plus (Finite 0) (map ai_score offers))
                 (Finite (of_nat (length offers)))") simp_all
  then show ?thesis using False by (simp add: calculateStats_nonempty foldl_scores)
qed

lemma stats_near_mean:
  assumes ne: "offers \<noteq> []" and len: "length offers \<le> 10 ^ 6"
    and range: "\<forall>offer\<in>set offers. is_finite (ai_score offer)
        \<and> 0 \<le> real_of_double (ai_score offer) \<and> real_of_double (ai_score offer) \<le> 100"
  shows "\<exists>k. avgAiScore (calculateStats c offers) = Finite (of_int k) \<and> 0 \<le> k \<and> k \<le> 100
       \<and> \<bar>of_int k - spec_mean (score_values offers)\<bar> \<le> 1 / 2 + mean_error_bound (length offers)
       \<and> (mean_error_bound (length offers)
            < \<bar>spec_mean (score_values offers) - of_int \<lfloor>spec_mean (score_values offers)\<rfloor> - 1 / 2\<bar>
          \<longrightarrow> k = spec_rounded_mean (score_values offers))"
proof -
  define ds where "ds = map ai_score offers"
  define M where "M = spec_mean (score_values offers)"
  define e where "e = mean_error_bound (length offers)"
  have M: "M = sum_list (map real_of_double ds) / of_nat (length ds)"
    by (simp add: M_def spec_mean_def score_values_def ds_def comp_def)
  have e: "e = 102 * (of_nat (length ds) + 1) * ulp_unit"
    by (simp add: e_def mean_error_bound_def ds_def)
  have "\<exists>q. d_divide (foldl d_plus (Finite 0) ds) (Finite (of_nat (length ds))) = Finite q
           \<and> \<bar>q - sum_list (map real_of_double ds) / of_nat (length ds)\<bar>
               \<le> 102 * (of_nat (length ds) + 1) * ulp_unit"
    using ne len range by (intro mean_error) (simp_all add: ds_def)
  then obtain q where q: "d_divide (foldl d_plus (Finite 0) ds) (Finite (of_nat (length ds)))
      = Finite q" "\<bar>q - M\<bar> \<le> e"
    unfolding M e by blast
  define k where "k = \<lfloor>q + 1 / 2\<rfloor>"
  have res: "avgAiScore (calculateStats c offers) = Finite (of_int k)"
    using q(1) ne by (simp add: calculateStats_nonempty foldl_scores ds_def k_def)
  note r = round_near[OF q(2)]
  have near: "\<bar>of_int k - M\<bar> \<le> 1 / 2 + e" using r(1) by (simp add: k_def)
  have e_small: "e < 1 / 2"
  proof -
    have "(of_nat (length ds) :: real) \<le> of_nat (10 ^ 6)"
      using len by (simp only: of_nat_le_iff ds_def length_map)
    then have "of_nat (length ds) + 1 \<le> (10 ^ 6 + 1 :: real)" by simp
    then have "102 * (of_nat (length ds) + 1) * ulp_unit \<le> 102 * (10 ^ 6 + 1) * ulp_unit"
      using ulp_unit_pos by (intro mult_right_mono mult_left_mono) simp_all
    also have "\<dots> < 1 / 2" by (simp add: ulp_unit_eq)
    finally show ?thesis by (simp add: e)
  qed
  have M0: "0 \<le> M" "M \<le> 100"
  proof -
    have fin: "\<forall>d\<in>set ds. is_finite d \<and> 0 \<le> real_of_double d" using range by (simp add: ds_def)
    have le: "\<forall>d\<in>set ds. real_of_double d \<le> 100" using range by (simp add: ds_def)
    have n1: "(1::real) \<le> of_nat (length ds)" using ne by (cases offers) (simp_all add: ds_def)
    show "0 \<le> M" unfolding M using sum_list_values_nonneg[OF fin] by simp
    have "sum_list (map real_of_double ds) / of_nat (length ds)
        \<le> (100 * of_nat (length ds)) / of_nat (length ds)"
      using sum_list_values_le[OF le] by (intro divide_right_mono) simp_all
    moreover have "ds \<noteq> []" using ne by (simp add: ds_def)
    ultimately show "M \<le> 100" unfolding M by simp
  qed
  have k0: "0 \<le> k" "k \<le> 100"
  proof -
    have "- 1 < (of_int k :: real)" using near e_small M0 by linarith
    then have "(of_int (- 1) :: real) < of_int k" by simp
    then have "- 1 < k" by (simp only: of_int_less_iff)
    then show "0 \<le> k" by simp
    have "(of_int k :: real) < 101" using near e_small M0 by linarith
    then have "(of_int k :: real) < of_int 101" by simp
    then have "k < 101" by (simp only: of_int_less_iff)
    then show "k \<le> 100" by simp
  qed
  have "e < \<bar>M - of_int \<lfloor>M\<rfloor> - 1 / 2\<bar> \<longrightarrow> k = spec_rounded_mean (score_values offers)"
    using r(2) by (simp add: k_def spec_rounded_mean_def M_def)
  then show ?thesis using res k0 near unfolding M_def e_def by blast
qed

text \<open>
  C9, as stated: on a non-empty list \<^verbatim>\<open>avgAiScore\<close> is the rounded mean of the
  scores. Two lists show otherwise. The scores 28.7 and 40.3 are the doubles
  \<open>rd (287 / 10)\<close> and \<open>rd (403 / 10)\<close>; their mean lies below 34.5 and rounds to
  34, the double sum is 69 and \<^verbatim>\<open>avgAiScore\<close> is 35. For the scores 73.1,
  13.1 and 32.3 the mean of the decimal values is 39.5 and rounds to 40, the
  double sum lies below 118.5 and \<^verbatim>\<open>avgAiScore\<close> is 39.
\<close>

theorem calculateStats_is_not_the_rounded_mean:
  "rd (287 / 10) = Finite (8078331831595827 / 2 ^ 48)
   \<and> rd (403 / 10) = Finite (2835860390359859 / 2 ^ 46)
   \<and> avgAiScore (calculateStats \<lparr>totalOffers = 0, avgAiScore = Finite 0, vipCount = 0\<rparr>
       [offer_scored (Finite (8078331831595827 / 2 ^ 48)),
        offer_scored (Finite (2835860390359859 / 2 ^ 46))]) = Finite 35
   \<and> spec_rounded_mean [(8078331831595827 / 2 ^ 48), (2835860390359859 / 2 ^ 46)] = 34
   \<and> rd (731 / 10) = Finite (2571977599693619 / 2 ^ 45)
   \<and> rd (131 / 10) = Finite (7374644389819187 / 2 ^ 49)
   \<and> rd (323 / 10) = Finite (2272910436938547 / 2 ^ 46)
   \<and> avgAiScore (calculateStats \<lparr>totalOffers = 0, avgAiScore = Finite 0, vipCount = 0\<rparr>
       [offer_scored (Finite (2571977599693619 / 2 ^ 45)),
        offer_scored (Finite (7374644389819187 / 2 ^ 49)),
        offer_scored (Finite (2272910436938547 / 2 ^ 46))]) = Finite 39
   \<and> spec_rounded_mean [731 / 10, 131 / 10, 323 / 10] = 40"
proof -
  have s: "ai_score (offer_scored x) = x" for x by (simp add: offer_scored_def)
  have l1: "rd (287 / 10) = Finite (8078331831595827 / 2 ^ 48)"
    by (rule rd_eqI[where q = "4" and m = "8078331831595827"]; simp)
  have l2: "rd (403 / 10) = Finite (2835860390359859 / 2 ^ 46)"
    by (rule rd_eqI[where q = "5" and m = "5671720780719718"]; simp)
  have l3: "rd (731 / 10) = Finite (2571977599693619 / 2 ^ 45)"
    by (rule rd_eqI[where q = "6" and m = "5143955199387238"]; simp)
  have l4: "rd (131 / 10) = Finite (7374644389819187 / 2 ^ 49)"
    by (rule rd_eqI[where q = "3" and m = "7374644389819187"]; simp)
  have l5: "rd (323 / 10) = Finite (2272910436938547 / 2 ^ 46)"
    by (rule rd_eqI[where q = "5" and m = "4545820873877094"]; simp)
  have a1: "d_plus (Finite 0) (Finite (8078331831595827 / 2 ^ 48)) = Finite (8078331831595827 / 2 ^ 48)"
    unfolding d_plus.simps by (rule rd_eqI[where q = "4" and m = "8078331831595827"]; simp)
  have a2: "d_plus (Finite (8078331831595827 / 2 ^ 48)) (Finite (2835860390359859 / 2 ^ 46)) = Finite 69"
    unfolding d_plus.simps by (rule rd_eqI[where q = "6" and m = "4855443348258816"]; simp)
  have a3: "d_divide (Finite 69) (Finite 2) = Finite (69 / 2 ^ 1)"
  proof -
    have "rd (69 / 2) = Finite (69 / 2 ^ 1)"
      by (rule rd_eqI[where q = "5" and m = "4855443348258816"]; simp)
    then show ?thesis by simp
  qed
  have a4: "d_round (Finite (69 / 2 ^ 1)) = Finite 35"
    by simp
  have A: "avgAiScore (calculateStats \<lparr>totalOffers = 0, avgAiScore = Finite 0, vipCount = 0\<rparr>
       [offer_scored (Finite (8078331831595827 / 2 ^ 48)),
        offer_scored (Finite (2835860390359859 / 2 ^ 46))]) = Finite 35"
  proof -
    have n: "Finite (of_nat (length [offer_scored (Finite (8078331831595827 / 2 ^ 48)), offer_scored (Finite (2835860390359859 / 2 ^ 46))])) = Finite 2"
      by simp
    show ?thesis
      unfolding calculateStats_nonempty[OF list.distinct(2)] n
      by (simp only: foldl.simps s a1 a2 a3 a4)
  qed
  have b1: "d_plus (Finite 0) (Finite (2571977599693619 / 2 ^ 45)) = Finite (2571977599693619 / 2 ^ 45)"
    unfolding d_plus.simps by (rule rd_eqI[where q = "6" and m = "5143955199387238"]; simp)
  have b2: "d_plus (Finite (2571977599693619 / 2 ^ 45)) (Finite (7374644389819187 / 2 ^ 49)) = Finite (1516446437028659 / 2 ^ 44)"
    unfolding d_plus.simps by (rule rd_eqI[where q = "6" and m = "6065785748114636"]; simp)
  have b3: "d_plus (Finite (1516446437028659 / 2 ^ 44)) (Finite (2272910436938547 / 2 ^ 46)) = Finite (8338696185053183 / 2 ^ 46)"
    unfolding d_plus.simps by (rule rd_eqI[where q = "6" and m = "8338696185053183"]; simp)
  have b4: "d_divide (Finite (8338696185053183 / 2 ^ 46)) (Finite 3) = Finite (5559130790035455 / 2 ^ 47)"
  proof -
    have "rd ((8338696185053183 / 2 ^ 46) / 3) = Finite (5559130790035455 / 2 ^ 47)"
      by (rule rd_eqI[where q = "5" and m = "5559130790035455"]; simp)
    then show ?thesis by simp
  qed
  have b5: "d_round (Finite (5559130790035455 / 2 ^ 47)) = Finite 39"
    by simp
  have B: "avgAiScore (calculateStats \<lparr>totalOffers = 0, avgAiScore = Finite 0, vipCount = 0\<rparr>
       [offer_scored (Finite (2571977599693619 / 2 ^ 45)),
        offer_scored (Finite (7374644389819187 / 2 ^ 49)),
        offer_scored (Finite (2272910436938547 / 2 ^ 46))]) = Finite 39"
  proof -
    have n: "Finite (of_nat (length [offer_scored (Finite (2571977599693619 / 2 ^ 45)), offer_scored (Finite (7374644389819187 / 2 ^ 49)), offer_scored (Finite (2272910436938547 / 2 ^ 46))])) = Finite 3"
      by simp
    show ?thesis
      unfolding calculateStats_nonempty[OF list.distinct(2)] n
      by (simp only: foldl.simps s b1 b2 b3 b4 b5)
  qed
  have M: "spec_rounded_mean [(8078331831595827 / 2 ^ 48), (2835860390359859 / 2 ^ 46)] = 34"
    by (simp add: spec_rounded_mean_def spec_mean_def)
  have N: "spec_rounded_mean [731 / 10, 131 / 10, 323 / 10] = 40"
    by (simp add: spec_rounded_mean_def spec_mean_def)
  show ?thesis using l1 l2 l3 l4 l5 A B M N by (intro conjI)
qed

text \<open>
  C9, amended: \<^verbatim>\<open>calculateStats\<close> never divides by zero. On the empty list it
  sets \<^verbatim>\<open>avgAiScore\<close> to 0. On a non-empty list it sets it to \<^verbatim>\<open>Math.round\<close> of
  the quotient, in double arithmetic, of the sum of the scores, added from left
  to right in double arithmetic, by their number; this is never \<^verbatim>\<open>NaN\<close> when
  every score is a finite number. When the list has at most \<open>10^6\<close> offers and
  every score lies between 0 and 100, \<^verbatim>\<open>avgAiScore\<close> is an integer between 0
  and 100 within \<open>1/2 + e\<close> of the exact mean of the scores, where \<open>e\<close> is
  \<open>102 (n + 1) 2^-53\<close> for \<open>n\<close> offers; and it is the exact mean rounded to the
  nearest integer, ties upwards, whenever the exact mean is farther than \<open>e\<close>
  from the midpoint between two integers. Nearer to a midpoint it can be
  either neighbour, as in the two lists above.
\<close>

theorem calculateStats_average_in_doubles:
  "avgAiScore (calculateStats c []) = Finite 0
   \<and> (offers \<noteq> [] \<longrightarrow>
        avgAiScore (calculateStats c offers)
          = d_round (d_divide (foldl (\<lambda>sum offer. d_plus sum (ai_score offer)) (Finite 0) offers)
                              (Finite (of_nat (length offers)))))
   \<and> ((\<forall>offer\<in>set offers. is_finite (ai_score offer)) \<longrightarrow>
        avgAiScore (calculateStats c offers) \<noteq> DNaN)
   \<and> (offers \<noteq> [] \<and> length offers \<le> 10 ^ 6
        \<and> (\<forall>offer\<in>set offers. is_finite (ai_score offer)
              \<and> 0 \<le> real_of_double (ai_score offer) \<and> real_of_double (ai_score offer) \<le> 100)
      \<longrightarrow> (\<exists>k. avgAiScore (calculateStats c offers) = Finite (of_int k) \<and> 0 \<le> k \<and> k \<le> 100
             \<and> \<bar>of_int k - spec_mean (score_values offers)\<bar>
                 \<le> 1 / 2 + mean_error_bound (length offers)
             \<and> (mean_error_bound (length offers)
                  < \<bar>spec_mean (score_values offers)
                       - of_int \<lfloor>spec_mean (score_values offers)\<rfloor> - 1 / 2\<bar>
                \<longrightarrow> k = spec_rounded_mean (score_values offers))))"
proof (intro conjI impI)
  show "avgAiScore (calculateStats c []) = Finite 0" by (simp add: calculateStats_def)
next
  assume "offers \<noteq> []"
  then show "avgAiScore (calculateStats c offers)
          = d_round (d_divide (foldl (\<lambda>sum offer. d_plus sum (ai_score offer)) (Finite 0) offers)
                              (Finite (of_nat (length offers))))"
    by (rule calculateStats_nonempty)
next
  assume "\<forall>offer\<in>set offers. is_finite (ai_score offer)"
  then show "avgAiScore (calculateStats c offers) \<noteq> DNaN" by (rule stats_not_nan)
next
  assume "offers \<noteq> [] \<and> length offers \<le> 10 ^ 6
        \<and> (\<forall>offer\<in>set offers. is_finite (ai_score offer)
              \<and> 0 \<le> real_of_double (ai_score offer) \<and> real_of_double (ai_score offer) \<le> 100)"
  then show "\<exists>k. avgAiScore (calculateStats c offers) = Finite (of_int k) \<and> 0 \<le> k \<and> k \<le> 100
             \<and> \<bar>of_int k - spec_mean (score_values offers)\<bar>
                 \<le> 1 / 2 + mean_error_bound (length offers)
             \<and> (mean_error_bound (length offers)
                  < \<bar>spec_mean (score_values offers)
                       - of_int \<lfloor>spec_mean (score_values offers)\<rfloor> - 1 / 2\<bar>
                \<longrightarrow> k = spec_rounded_mean (score_values offers))"
    using stats_near_mean[of offers c] by blast
qed

text \<open>
  The scores 72.5, 40.25 and 88 have the mean 66.91..., far from a midpoint:
  \<^verbatim>\<open>avgAiScore\<close> is 67.
\<close>

theorem calculateStats_average_in_doubles_witness:
  "[offer_scored (Finite (145 / 2)), offer_scored (Finite (161 / 4)), offer_scored (Finite 88)]
     \<noteq> []
   \<and> length [offer_scored (Finite (145 / 2)), offer_scored (Finite (161 / 4)),
             offer_scored (Finite 88)] \<le> 10 ^ 6
   \<and> is_finite (ai_score (offer_scored (Finite (145 / 2))))
   \<and> 0 \<le> real_of_double (ai_score (offer_scored (Finite (145 / 2))))
   \<and> real_of_double (ai_score (offer_scored (Finite (145 / 2)))) \<le> 100
   \<and> is_finite (ai_score (offer_scored (Finite (161 / 4))))
   \<and> 0 \<le> real_of_double (ai_score (offer_scored (Finite (161 / 4))))
   \<and> real_of_double (ai_score (offer_scored (Finite (161 / 4)))) \<le> 100
   \<and> is_finite (ai_score (offer_scored (Finite 88)))
   \<and> 0 \<le> real_of_double (ai_score (offer_scored (Finite 88)))
   \<and> real_of_double (ai_score (offer_scored (Finite 88))) \<le> 100
   \<and> avgAiScore (calculateStats \<lparr>totalOffers = 0, avgAiScore = Finite 0, vipCount = 0\<rparr>
        [offer_scored (Finite (145 / 2)), offer_scored (Finite (161 / 4)),
         offer_scored (Finite 88)]) = Finite 67"
proof -
  let ?offers = "[offer_scored (Finite (145 / 2)), offer_scored (Finite (161 / 4)),
                  offer_scored (Finite 88)]"
  let ?c = "\<lparr>totalOffers = 0, avgAiScore = Finite 0, vipCount = 0\<rparr>"
  have h: "?offers \<noteq> [] \<and> length ?offers \<le> 10 ^ 6
        \<and> (\<forall>offer\<in>set ?offers. is_finite (ai_score offer)
              \<and> 0 \<le> real_of_double (ai_score offer) \<and> real_of_double (ai_score offer) \<le> 100)"
    by (simp add: offer_scored_def)
  have v: "score_values ?offers = [145 / 2, 161 / 4, 88]"
    by (simp add: score_values_def offer_scored_def)
  have m: "spec_mean [145 / 2, 161 / 4, 88] = 803 / 12" by (simp add: spec_mean_def)
  have f: "\<lfloor>803 / 12 :: real\<rfloor> = 66" by simp
  have r: "spec_rounded_mean [145 / 2, 161 / 4, 88] = 67"
    by (simp add: spec_rounded_mean_def spec_mean_def)
  have e: "mean_error_bound (length ?offers) < \<bar>803 / 12 - of_int 66 - 1 / 2\<bar>"
    by (simp add: mean_error_bound_def ulp_unit_eq)
  obtain k where k: "avgAiScore (calculateStats ?c ?offers) = Finite (of_int k)"
    "mean_error_bound (length ?offers)
       < \<bar>spec_mean (score_values ?offers) - of_int \<lfloor>spec_mean (score_values ?offers)\<rfloor> - 1 / 2\<bar>
     \<longrightarrow> k = spec_rounded_mean (score_values ?offers)"
    using calculateStats_average_in_doubles[of ?c ?offers, THEN conjunct2, THEN conjunct2,
        THEN conjunct2, rule_format, OF h]
    by blast
  have "k = 67" using k(2) e unfolding v m f r by simp
  then have "avgAiScore (calculateStats ?c ?offers) = Finite 67" using k(1) by simp
  then show ?thesis using h by (simp add: offer_scored_def)
qed

section \<open>The stored user\<close>

lemma getStoredUser_parsed:
  "getStoredUser coerce now (Some (Json j))
     = (case is_expired coerce now j of
          Inr False \<Rightarrow> (Some j, Some (Json j))
        | Inr True \<Rightarrow> (None, None)
        | Inl e \<Rightarrow> (None, None))"
  by (simp add: getStoredUser_def getStoredUser_try_def getItem_def clearStorage_def
      split: sum.split bool.split)

lemma expiresAt_of_user_json:
  "get_expiresAt (user_json u) = Inr (map_option JNumber (expiresAt u))"
  by (simp add: user_json_def split: option.split)

lemma is_expired_user:
  "is_expired coerce now (user_json u)
     = Inr (case expiresAt u of None \<Rightarrow> False | Some x \<Rightarrow> x \<noteq> 0 \<and> x < of_int now)"
  by (simp add: is_expired_def expiresAt_of_user_json split: option.split)

text \<open>
  C10, as stated: an entry that is absent, unparsable or expired is cleared and
  \<^verbatim>\<open>null\<close> returned, and what is returned otherwise is a user whose expiry, when
  present, lies in the future. Three entries show otherwise, at the time
  1700000000000 and whatever the runtime's conversions do: the empty string is
  unparsable, and \<^verbatim>\<open>null\<close> is returned with the entry left in place; a user
  stored with \<^verbatim>\<open>expiresAt\<close> 0, an expiry long past, is returned; and the entry
  \<^verbatim>\<open>0\<close> is returned as the number 0, which is no user.
\<close>

theorem getStoredUser_keeps_empty_string_and_returns_non_users:
  "\<forall>coerce.
     getStoredUser coerce 1700000000000 (Some EmptyString) = (None, Some EmptyString)
     \<and> getStoredUser coerce 1700000000000
         (Some (Json (user_json \<lparr>token = ''t'', email = None, role = ''admin'',
                                  expiresAt = Some 0\<rparr>)))
       = (Some (user_json \<lparr>token = ''t'', email = None, role = ''admin'',
                            expiresAt = Some 0\<rparr>),
          Some (Json (user_json \<lparr>token = ''t'', email = None, role = ''admin'',
                                  expiresAt = Some 0\<rparr>)))
     \<and> getStoredUser coerce 1700000000000 (Some (Json (JNumber 0)))
       = (Some (JNumber 0), Some (Json (JNumber 0)))"
proof -
  have "getStoredUser coerce 1700000000000 (Some EmptyString) = (None, Some EmptyString)"
    for coerce
    by (simp add: getStoredUser_def getStoredUser_try_def getItem_def)
  moreover have "getStoredUser coerce 1700000000000
         (Some (Json (user_json \<lparr>token = ''t'', email = None, role = ''admin'',
                                  expiresAt = Some 0\<rparr>)))
       = (Some (user_json \<lparr>token = ''t'', email = None, role = ''admin'',
                            expiresAt = Some 0\<rparr>),
          Some (Json (user_json \<lparr>token = ''t'', email = None, role = ''admin'',
                                  expiresAt = Some 0\<rparr>)))" for coerce
    by (simp add: getStoredUser_parsed is_expired_user)
  moreover have "getStoredUser coerce 1700000000000 (Some (Json (JNumber 0)))
       = (Some (JNumber 0), Some (Json (JNumber 0)))" for coerce
    by (simp add: getStoredUser_parsed is_expired_def)
  ultimately show ?thesis by blast
qed

text \<open>
  C10, amended: \<^verbatim>\<open>getStoredUser\<close> never throws. When the entry is absent or is
  the empty string it returns \<^verbatim>\<open>null\<close> and leaves the storage as it is: an
  empty-string entry is not removed. When the entry is a non-empty string that
  \<^verbatim>\<open>JSON.parse\<close> rejects, or the text \<^verbatim>\<open>null\<close>, it returns \<^verbatim>\<open>null\<close> and removes the
  entry. Otherwise the entry parses to a value other than \<^verbatim>\<open>null\<close>, of any
  shape, and its property \<^verbatim>\<open>expiresAt\<close> decides. If the value is not an object,
  or has no \<^verbatim>\<open>expiresAt\<close>, or a falsy one (0, \<^verbatim>\<open>false\<close>, the empty string,
  \<^verbatim>\<open>null\<close>), the parsed value is returned as it is, user or not, and the entry is
  kept. If \<^verbatim>\<open>expiresAt\<close> is truthy, the comparison of the current time with it
  decides: where it holds or throws, \<^verbatim>\<open>null\<close> is returned and the entry removed;
  where it does not hold, the parsed value is returned and the entry kept. A
  number is compared as a number, \<^verbatim>\<open>true\<close> as 1, an out-of-range number as
  infinity; a string, an array and an object are compared as the runtime
  converts them. So a stored user is returned exactly if it has no
  \<^verbatim>\<open>expiresAt\<close>, or the \<^verbatim>\<open>expiresAt\<close> 0, or an \<^verbatim>\<open>expiresAt\<close> not earlier than the
  current time, and is removed otherwise.
\<close>

theorem getStoredUser_by_stored_value:
  "getStoredUser coerce now None = (None, None)
   \<and> getStoredUser coerce now (Some EmptyString) = (None, Some EmptyString)
   \<and> getStoredUser coerce now (Some Malformed) = (None, None)
   \<and> getStoredUser coerce now (Some (Json JNull)) = (None, None)
   \<and> getStoredUser coerce now (Some (Json j))
       = (case is_expired coerce now j of
            Inr False \<Rightarrow> (Some j, Some (Json j))
          | Inr True \<Rightarrow> (None, None)
          | Inl e \<Rightarrow> (None, None))
   \<and> is_expired coerce now (JBool b) = Inr False
   \<and> is_expired coerce now (JNumber x) = Inr False
   \<and> is_expired coerce now (JInfinite s) = Inr False
   \<and> is_expired coerce now (JString str) = Inr False
   \<and> is_expired coerce now (JArray js) = Inr False
   \<and> is_expired coerce now (JObject props)
       = (case map_of props ''expiresAt'' of
            None \<Rightarrow> Inr False
          | Some JNull \<Rightarrow> Inr False
          | Some (JBool t) \<Rightarrow> Inr (t \<and> 1 < now)
          | Some (JNumber y) \<Rightarrow> Inr (y \<noteq> 0 \<and> y < of_int now)
          | Some (JInfinite t) \<Rightarrow> Inr (\<not> t)
          | Some (JString w) \<Rightarrow> (if w = [] then Inr False else coerce now (JString w))
          | Some (JArray ws) \<Rightarrow> coerce now (JArray ws)
          | Some (JObject ws) \<Rightarrow> coerce now (JObject ws))
   \<and> getStoredUser coerce now (Some (Json (user_json u)))
       = (case expiresAt u of
            None \<Rightarrow> (Some (user_json u), Some (Json (user_json u)))
          | Some z \<Rightarrow>
              if z \<noteq> 0 \<and> z < of_int now then (None, None)
              else (Some (user_json u), Some (Json (user_json u))))"
proof -
  have a: "getStoredUser coerce now None = (None, None)"
    "getStoredUser coerce now (Some EmptyString) = (None, Some EmptyString)"
    "getStoredUser coerce now (Some Malformed) = (None, None)"
    by (simp_all add: getStoredUser_def getStoredUser_try_def getItem_def clearStorage_def)
  have b: "getStoredUser coerce now (Some (Json JNull)) = (None, None)"
    by (simp add: getStoredUser_parsed is_expired_def)
  have c: "is_expired coerce now (JBool b) = Inr False"
    "is_expired coerce now (JNumber x) = Inr False"
    "is_expired coerce now (JInfinite s) = Inr False"
    "is_expired coerce now (JString str) = Inr False"
    "is_expired coerce now (JArray js) = Inr False"
    by (simp_all add: is_expired_def)
  have d: "is_expired coerce now (JObject props)
       = (case map_of props ''expiresAt'' of
            None \<Rightarrow> Inr False
          | Some JNull \<Rightarrow> Inr False
          | Some (JBool t) \<Rightarrow> Inr (t \<and> 1 < now)
          | Some (JNumber y) \<Rightarrow> Inr (y \<noteq> 0 \<and> y < of_int now)
          | Some (JInfinite t) \<Rightarrow> Inr (\<not> t)
          | Some (JString w) \<Rightarrow> (if w = [] then Inr False else coerce now (JString w))
          | Some (JArray ws) \<Rightarrow> coerce now (JArray ws)
          | Some (JObject ws) \<Rightarrow> coerce now (JObject ws))"
    by (simp add: is_expired_def split: option.split json.split)
  have e: "getStoredUser coerce now (Some (Json (user_json u)))
       = (case expiresAt u of
            None \<Rightarrow> (Some (user_json u), Some (Json (user_json u)))
          | Some z \<Rightarrow>
              if z \<noteq> 0 \<and> z < of_int now then (None, None)
              else (Some (user_json u), Some (Json (user_json u))))"
    by (simp add: getStoredUser_parsed is_expired_user split: option.split)
  show ?thesis using a b c d e getStoredUser_parsed[of coerce now j] by (intro conjI)
qed

text \<open>
  A user whose token expired one second before the current time is removed;
  the same user is returned one second earlier. An entry holding the JSON text
  of an array is returned as that array.
\<close>

theorem getStoredUser_by_stored_value_witness:
  "getStoredUser (\<lambda>now x. Inr False) 1700000001000
     (Some (Json (user_json \<lparr>token = ''t'', email = Some ''a@b.pl'', role = ''user'',
                              expiresAt = Some 1700000000000\<rparr>))) = (None, None)
   \<and> fst (getStoredUser (\<lambda>now x. Inr False) 1699999999000
     (Some (Json (user_json \<lparr>token = ''t'', email = Some ''a@b.pl'', role = ''user'',
                              expiresAt = Some 1700000000000\<rparr>))))
     = Some (user_json \<lparr>token = ''t'', email = Some ''a@b.pl'', role = ''user'',
                         expiresAt = Some 1700000000000\<rparr>)
   \<and> getStoredUser (\<lambda>now x. Inr False) 1700000001000 (Some (Json (JArray [JNumber 1])))
     = (Some (JArray [JNumber 1]), Some (Json (JArray [JNumber 1])))"
proof -
  let ?u = "\<lparr>token = ''t'', email = Some ''a@b.pl'', role = ''user'',
             expiresAt = Some 1700000000000\<rparr>"
  let ?c = "\<lambda>(now::int) (x::json). (Inr False :: exn + bool)"
  note late = getStoredUser_by_stored_value
      [of ?c 1700000001000 "JArray [JNumber 1]" True 0 True "[]" "[JNumber 1]" "[]" ?u]
  note early = getStoredUser_by_stored_value
      [of ?c 1699999999000 "JArray [JNumber 1]" True 0 True "[]" "[JNumber 1]" "[]" ?u]
  note user_late = late[THEN conjunct2, THEN conjunct2, THEN conjunct2, THEN conjunct2,
      THEN conjunct2, THEN conjunct2, THEN conjunct2, THEN conjunct2, THEN conjunct2,
      THEN conjunct2, THEN conjunct2]
  note user_early = early[THEN conjunct2, THEN conjunct2, THEN conjunct2, THEN conjunct2,
      THEN conjunct2, THEN conjunct2, THEN conjunct2, THEN conjunct2, THEN conjunct2,
      THEN conjunct2, THEN conjunct2]
  note parsed = late[THEN conjunct2, THEN conjunct2, THEN conjunct2, THEN conjunct2,
      THEN conjunct1]
  note array = late[THEN conjunct2, THEN conjunct2, THEN conjunct2, THEN conjunct2,
      THEN conjunct2, THEN conjunct2, THEN conjunct2, THEN conjunct2, THEN conjunct2,
      THEN conjunct1]
  have a: "getStoredUser ?c 1700000001000 (Some (Json (user_json ?u))) = (None, None)"
    by (simp add: user_late)
  have b: "fst (getStoredUser ?c 1699999999000 (Some (Json (user_json ?u))))
      = Some (user_json ?u)"
    by (simp add: user_early)
  have c: "getStoredUser ?c 1700000001000 (Some (Json (JArray [JNumber 1])))
     = (Some (JArray [JNumber 1]), Some (Json (JArray [JNumber 1])))"
    by (simp add: parsed array)
  show ?thesis using a b c by (intro conjI)
qed

end
